theory Spec2Isabelle
  imports Complex_Main "HOL-Library.Word"
begin

section \<open>The input stream\<close>

text \<open>
  \<^verbatim>\<open>std::ifstream in(argv[1], std::ifstream::binary)\<close>: the bytes not yet extracted and
  the two state flags the program can observe. The member functions used by
  \<^verbatim>\<open>main\<close> follow the C++ standard library: \<^verbatim>\<open>peek\<close> on a stream that is not good sets
  failbit and yields EOF, \<^verbatim>\<open>peek\<close> at the end of the data sets eofbit and yields EOF,
  \<^verbatim>\<open>get\<close> at the end of the data sets eofbit and failbit.
\<close>

type_synonym byte = "8 word"

record istream =
  rest :: "byte list"
  eofbit :: bool
  failbit :: bool

abbreviation EOF :: int where
  "EOF \<equiv> - 1"

definition eof :: "istream \<Rightarrow> bool" where
  "eof ins = eofbit ins"

definition good :: "istream \<Rightarrow> bool" where
  "good ins = (\<not> eofbit ins \<and> \<not> failbit ins)"

definition peek :: "istream \<Rightarrow> int \<times> istream" where
  "peek ins =
     (if \<not> good ins then (EOF, ins\<lparr>failbit := True\<rparr>)
      else case rest ins of
             [] \<Rightarrow> (EOF, ins\<lparr>eofbit := True\<rparr>)
           | b # _ \<Rightarrow> (uint b, ins))"

definition get :: "istream \<Rightarrow> int \<times> istream" where
  "get ins =
     (if \<not> good ins then (EOF, ins\<lparr>failbit := True\<rparr>)
      else case rest ins of
             [] \<Rightarrow> (EOF, ins\<lparr>eofbit := True, failbit := True\<rparr>)
           | b # bs \<Rightarrow> (uint b, ins\<lparr>rest := bs\<rparr>))"

text \<open>A file that has just been opened: all its bytes unread, no flag set.\<close>

definition opened :: "byte list \<Rightarrow> istream" where
  "opened bs = \<lparr>rest = bs, eofbit = False, failbit = False\<rparr>"

section \<open>What \<^verbatim>\<open>main\<close> takes from the headers\<close>

text \<open>
  \<^verbatim>\<open>BufferUtils.h\<close>, \<^verbatim>\<open>Cycles.h\<close> and the generated \<^verbatim>\<open>BufferStuffer.h\<close> are not part of
  the sources. \<^verbatim>\<open>main\<close> names three enumerators of \<^verbatim>\<open>EntryType\<close> and has a branch for
  every other value, which it prints with \<^verbatim>\<open>%d\<close>.
\<close>

datatype EntryType = INVALID | LOG_MSG | CHECKPOINT | UNKNOWN int

record DecompressedMetadata =
  fmtId :: "32 word"
  timestamp :: "64 word"

text \<open>
  \<^verbatim>\<open>cyclesPerSecond\<close> is a double; it is only printed. Doubles, here and in the
  elapsed time of a message, are read as reals: no property below depends on rounding.
\<close>

record Checkpoint =
  cyclesPerSecond :: real

text \<open>
  The functions \<^verbatim>\<open>main\<close> calls are parameters of the model. Each takes the stream by
  reference, so each returns the stream it leaves behind; each is taken to return.
  \<^verbatim>\<open>decompressAndPrintFnArray\<close> is an array of functions that read the arguments of
  one log statement and print it; the text printed is returned.
  \<^verbatim>\<open>PerfUtils::Cycles::toSeconds\<close> is called with the cycle count alone.
\<close>

record helpers =
  peekEntryType :: "istream \<Rightarrow> EntryType \<times> istream"
  decompressMetadata :: "istream \<Rightarrow> 32 word \<Rightarrow> 64 word \<Rightarrow> DecompressedMetadata \<times> istream"
  readCheckpoint :: "istream \<Rightarrow> Checkpoint \<times> istream"
  decompressAndPrintFnArray :: "(istream \<Rightarrow> string \<times> istream) list"
  toSeconds :: "64 word \<Rightarrow> real"

section \<open>Output and program state\<close>

text \<open>One constructor for each \<^verbatim>\<open>printf\<close> of the program, with the values it formats.\<close>

datatype printed =
    UsageBanner
  | UsageLine string
  | MallocFailed nat
  | InvalidCount string
  | CountTooLarge string
  | ExcludeParameterHint
  | CountNotPositive string
  | UnableToOpen string
  | OpeningFile string
  | MsgPrefix int real
  | MsgText string
  | FoundCheckpoint real
  | NoMatchingEntryType EntryType
  | DecompressionComplete int

record dstate =
  stream :: istream
  linesPrinted :: int
  lastFmtId :: "32 word"
  lastTimestamp :: "64 word"
  out :: "printed list"

text \<open>
  Two operations of \<^verbatim>\<open>main\<close> have no defined result in C++: indexing the function
  array at or beyond its size, and incrementing an \<^verbatim>\<open>int\<close> that holds \<^verbatim>\<open>INT_MAX\<close>.
  The model stops there and says which one happened.
\<close>

datatype undefined_behaviour = IndexOutOfRange | SignedOverflow

datatype loop_end = LoopDone | ExitCalled int | Undefined undefined_behaviour

datatype step = Continue dstate | Stop loop_end dstate

definition INT_MAX :: int where
  "INT_MAX = 2147483647"

definition INT_MIN :: int where
  "INT_MIN = - 2147483648"

section \<open>The decode loop\<close>

text \<open>Lines 106-107: \<^verbatim>\<open>while (in.peek() == 0 && in.good()) in.get();\<close>\<close>

function skipPadding :: "istream \<Rightarrow> istream" where
  "skipPadding ins =
     (let (c, ins1) = peek ins
      in if c = 0 \<and> good ins1 then skipPadding (snd (get ins1)) else ins1)"
  by pat_completeness auto
termination
proof (relation "measure (\<lambda>ins. length (rest ins))")
  show "wf (measure (\<lambda>ins. length (rest ins)))" by simp
next
  fix ins :: istream and x :: "int \<times> istream" and c :: int and ins1 :: istream
  assume "x = peek ins" and "(c, ins1) = x" and "c = 0 \<and> good ins1"
  then have p: "peek ins = (0, ins1)" and g: "good ins1" by simp_all
  from p g have "rest ins \<noteq> []" and "ins1 = ins"
    by (auto simp: peek_def good_def split: if_splits list.splits)
  with g show "(snd (get ins1), ins) \<in> measure (\<lambda>ins. length (rest ins))"
    by (cases "rest ins") (auto simp: get_def)
qed

declare skipPadding.simps [simp del]

text \<open>Lines 89-99, the \<^verbatim>\<open>LOG_MSG\<close> branch.\<close>

definition logMsgEntry :: "helpers \<Rightarrow> dstate \<Rightarrow> step" where
  "logMsgEntry h s =
     (let (dm, ins1) = decompressMetadata h (stream s) (lastFmtId s) (lastTimestamp s);
          s1 = s\<lparr>stream := ins1,
                 out := out s @ [MsgPrefix (linesPrinted s)
                   (1000000000 * toSeconds h (timestamp dm - lastTimestamp s))]\<rparr>
      in if length (decompressAndPrintFnArray h) \<le> unat (fmtId dm)
         then Stop (Undefined IndexOutOfRange) s1
         else
           let (txt, ins2) = (decompressAndPrintFnArray h ! unat (fmtId dm)) ins1;
               s2 = s1\<lparr>stream := ins2, out := out s1 @ [MsgText txt],
                       lastFmtId := fmtId dm, lastTimestamp := timestamp dm\<rparr>
           in if linesPrinted s = INT_MAX then Stop (Undefined SignedOverflow) s2
              else Continue (s2\<lparr>linesPrinted := linesPrinted s + 1\<rparr>))"

text \<open>Lines 101-103, the \<^verbatim>\<open>CHECKPOINT\<close> branch.\<close>

definition checkpointEntry :: "helpers \<Rightarrow> dstate \<Rightarrow> dstate" where
  "checkpointEntry h s =
     (let (cp, ins1) = readCheckpoint h (stream s)
      in s\<lparr>stream := ins1, out := out s @ [FoundCheckpoint (cyclesPerSecond cp)]\<rparr>)"

text \<open>Lines 83-112, one pass through the body of the \<^verbatim>\<open>while\<close> loop.\<close>

definition loopBody :: "helpers \<Rightarrow> int \<Rightarrow> dstate \<Rightarrow> step" where
  "loopBody h msgsToPrint s =
     (if msgsToPrint > 0 \<and> linesPrinted s \<ge> msgsToPrint then Stop LoopDone s
      else
        let (nextType, ins1) = peekEntryType h (stream s);
            s1 = s\<lparr>stream := ins1\<rparr>
        in if nextType = LOG_MSG then logMsgEntry h s1
           else if nextType = CHECKPOINT then Continue (checkpointEntry h s1)
           else if nextType = INVALID then Continue (s1\<lparr>stream := skipPadding ins1\<rparr>)
           else Stop (ExitCalled (- 1)) (s1\<lparr>out := out s1 @ [NoMatchingEntryType nextType]\<rparr>))"

text \<open>
  Lines 82-113. The loop need not end, so the result is an option: \<open>None\<close> is a run
  that never leaves the loop.
\<close>

partial_function (option) mainLoop :: "helpers \<Rightarrow> int \<Rightarrow> dstate \<Rightarrow> (loop_end \<times> dstate) option" where
  "mainLoop h msgsToPrint s =
     (if eof (stream s) then Some (LoopDone, s)
      else case loopBody h msgsToPrint s of
             Continue s' \<Rightarrow> mainLoop h msgsToPrint s'
           | Stop e s' \<Rightarrow> Some (e, s'))"

text \<open>Lines 77-81: the state in which the loop is entered.\<close>

definition initState :: "string \<Rightarrow> istream \<Rightarrow> dstate" where
  "initState file ins =
     \<lparr>stream = ins, linesPrinted = 0, lastFmtId = 0, lastTimestamp = 0,
      out = [OpeningFile file]\<rparr>"

section \<open>The command line\<close>

text \<open>
  \<^verbatim>\<open>std::stoi(argv[2])\<close> with base 10, as the C++ standard defines it through
  \<^verbatim>\<open>strtol\<close>: leading white space is skipped, one sign is optional, then the longest
  run of decimal digits is converted and whatever follows is ignored. No digit at all
  throws \<^verbatim>\<open>std::invalid_argument\<close>; a value outside \<^verbatim>\<open>int\<close> throws
  \<^verbatim>\<open>std::out_of_range\<close>.
\<close>

datatype stoi_exception = invalid_argument | out_of_range

definition isspace :: "char \<Rightarrow> bool" where
  "isspace c = (c \<in> set [CHR '' '', CHR 0x09, CHR 0x0A, CHR 0x0B, CHR 0x0C, CHR 0x0D])"

definition isdigit :: "char \<Rightarrow> bool" where
  "isdigit c = (48 \<le> (of_char c :: nat) \<and> (of_char c :: nat) \<le> 57)"

definition digitsValue :: "string \<Rightarrow> int" where
  "digitsValue ds = foldl (\<lambda>a c. 10 * a + (int (of_char c) - 48)) 0 ds"

definition stoi :: "string \<Rightarrow> stoi_exception + int" where
  "stoi str =
     (let s1 = dropWhile isspace str;
          (negative, s2) = (case s1 of
                              [] \<Rightarrow> (False, s1)
                            | c # cs \<Rightarrow> if c = CHR ''-'' then (True, cs)
                                        else if c = CHR ''+'' then (False, cs)
                                        else (False, s1));
          ds = takeWhile isdigit s2
      in if ds = [] then Inl invalid_argument
         else let v = (if negative then - digitsValue ds else digitsValue ds)
              in if v < INT_MIN \<or> INT_MAX < v then Inl out_of_range else Inr v)"

text \<open>
  What the program finds outside itself: whether the 64 MiB \<^verbatim>\<open>calloc\<close> succeeds, and
  for each file name the bytes of the file when it can be opened.
\<close>

record world =
  callocOk :: bool
  files :: "string \<Rightarrow> byte list option"

datatype outcome = Exit int | Return int | UndefinedBehaviour undefined_behaviour

text \<open>
  Lines 50-69. \<open>args\<close> are the arguments after the program name, so \<^verbatim>\<open>argv[2]\<close> is
  \<open>args ! 1\<close> and \<^verbatim>\<open>argc > 2\<close> is \<open>1 < length args\<close>. The error side holds what was
  printed before \<^verbatim>\<open>exit(-1)\<close>.
\<close>

definition parseCount :: "string list \<Rightarrow> printed list + int" where
  "parseCount args =
     (if 1 < length args then
        (case stoi (args ! 1) of
           Inl invalid_argument \<Rightarrow> Inl [InvalidCount (args ! 1)]
         | Inl out_of_range \<Rightarrow> Inl [CountTooLarge (args ! 1), ExcludeParameterHint]
         | Inr msgsToPrint \<Rightarrow>
             if msgsToPrint < 0 then Inl [CountNotPositive (args ! 1)]
             else Inr msgsToPrint)
      else Inr 0)"

text \<open>
  The whole of \<^verbatim>\<open>main\<close>: the status with which the process ends and everything printed.
  \<open>None\<close> is a run that never ends.
\<close>

definition main :: "helpers \<Rightarrow> world \<Rightarrow> string \<Rightarrow> string list \<Rightarrow> (outcome \<times> printed list) option" where
  "main h w prog args =
     (if length args < 1 then Some (Exit 1, [UsageBanner, UsageLine prog])
      else if \<not> callocOk w then Some (Exit (- 1), [MallocFailed (2 ^ 26)])
      else case parseCount args of
             Inl msgs \<Rightarrow> Some (Exit (- 1), msgs)
           | Inr msgsToPrint \<Rightarrow>
               (case files w (args ! 0) of
                  None \<Rightarrow> Some (Exit (- 1), [UnableToOpen (args ! 0)])
                | Some bs \<Rightarrow>
                    (case mainLoop h msgsToPrint (initState (args ! 0) (opened bs)) of
                       None \<Rightarrow> None
                     | Some (LoopDone, s) \<Rightarrow>
                         Some (Return 0, out s @ [DecompressionComplete (linesPrinted s)])
                     | Some (ExitCalled c, s) \<Rightarrow> Some (Exit c, out s)
                     | Some (Undefined u, s) \<Rightarrow> Some (UndefinedBehaviour u, out s))))"

section \<open>Streams made of records\<close>

text \<open>
  The three kinds of record a stream can hold. A stream holds a record of a kind at the
  cursor when the stream is not at its end, the tag peeked there is the tag of that
  kind, and, for a log message, its format id has an entry in the table and the line
  counter can still be incremented. \<open>readRecord\<close> gives the decoder state right after
  that record, \<open>readRecords\<close> the state after a sequence of records; \<open>None\<close> means the
  stream does not start with such records. Neither looks at the print limit.
\<close>

datatype record_kind = LogMessageRec | CheckpointRec | PaddingRec

definition readRecord :: "helpers \<Rightarrow> record_kind \<Rightarrow> dstate \<Rightarrow> dstate option" where
  "readRecord h k s =
     (if eof (stream s) then None
      else
        let (nextType, ins1) = peekEntryType h (stream s);
            s1 = s\<lparr>stream := ins1\<rparr>
        in case k of
             LogMessageRec \<Rightarrow>
               if nextType = LOG_MSG
               then (case logMsgEntry h s1 of Continue s' \<Rightarrow> Some s' | Stop e s' \<Rightarrow> None)
               else None
           | CheckpointRec \<Rightarrow>
               if nextType = CHECKPOINT then Some (checkpointEntry h s1) else None
           | PaddingRec \<Rightarrow>
               if nextType = INVALID then Some (s1\<lparr>stream := skipPadding ins1\<rparr>) else None)"

fun readRecords :: "helpers \<Rightarrow> record_kind list \<Rightarrow> dstate \<Rightarrow> dstate option" where
  "readRecords h [] s = Some s"
| "readRecords h (k # ks) s =
     (case readRecord h k s of None \<Rightarrow> None | Some s' \<Rightarrow> readRecords h ks s')"

text \<open>The message indices and the message bodies among what was printed, in order.\<close>

fun prefixIndices :: "printed list \<Rightarrow> int list" where
  "prefixIndices [] = []"
| "prefixIndices (MsgPrefix i t # ps) = i # prefixIndices ps"
| "prefixIndices (p # ps) = prefixIndices ps"

fun messageTexts :: "printed list \<Rightarrow> string list" where
  "messageTexts [] = []"
| "messageTexts (MsgText x # ps) = x # messageTexts ps"
| "messageTexts (p # ps) = messageTexts ps"

text \<open>The elapsed-time annotations of the message prefixes printed, in order.\<close>

fun elapsedNs :: "printed list \<Rightarrow> real list" where
  "elapsedNs [] = []"
| "elapsedNs (MsgPrefix i t # ps) = t # elapsedNs ps"
| "elapsedNs (p # ps) = elapsedNs ps"

text \<open>
  The elapsed time as the specification describes it: the cycle-count difference
  converted with the cycles per second of the checkpoint in force, in nanoseconds.
\<close>

definition specElapsedNs :: "real \<Rightarrow> 64 word \<Rightarrow> real" where
  "specElapsedNs cps cycles = 1000000000 * (real (unat cycles) / cps)"

section \<open>Kinds of count argument and of usage error\<close>

text \<open>
  A count argument has a numeric prefix when, after leading white space and one
  optional sign, a decimal digit follows.
\<close>

definition hasNumericPrefix :: "string \<Rightarrow> bool" where
  "hasNumericPrefix str =
     (case dropWhile isspace str of
        [] \<Rightarrow> False
      | c # cs \<Rightarrow>
          if c = CHR ''-'' \<or> c = CHR ''+'' then (case cs of [] \<Rightarrow> False | d # _ \<Rightarrow> isdigit d)
          else isdigit c)"

text \<open>
  The usage errors: no file argument, a count that \<^verbatim>\<open>std::stoi\<close> rejects, a negative
  count, a file that cannot be opened.
\<close>

definition usageError :: "world \<Rightarrow> string list \<Rightarrow> bool" where
  "usageError w args =
     (args = [] \<or>
      (1 < length args \<and> (case stoi (args ! 1) of Inl e \<Rightarrow> True | Inr n \<Rightarrow> n < 0)) \<or>
      files w (args ! 0) = None)"

section \<open>A sample codec\<close>

text \<open>
  Modelled from the spec: \<^verbatim>\<open>BufferUtils.h\<close>, \<^verbatim>\<open>Cycles.h\<close> and \<^verbatim>\<open>BufferStuffer.h\<close> are
  missing, and the spec leaves the byte layout to the implementer. The layout below is
  one choice, used only to run \<^verbatim>\<open>main\<close> on concrete files:
  \<^item> the entry type is the low two bits of the first byte of a record (0 invalid,
    1 log message, 2 checkpoint), peeked without consuming; at the end of the data the
    peek reports \<open>INVALID\<close>;
  \<^item> a log message is its header byte, one byte of format-id delta and one byte of
    timestamp delta, each added to the previous value;
  \<^item> a checkpoint is its header byte and one byte holding the cycles per second;
  \<^item> the table has two log statements: the first has no argument, the second has a
    one-byte argument;
  \<^item> the decoding machine runs at 1000 cycles per second.
\<close>

definition sampleByte :: "istream \<Rightarrow> byte \<times> istream" where
  "sampleByte ins = (let (c, ins1) = get ins in (if c = EOF then 0 else word_of_int c, ins1))"

definition samplePeekEntryType :: "istream \<Rightarrow> EntryType \<times> istream" where
  "samplePeekEntryType ins =
     (let (c, ins1) = peek ins
      in (if c = EOF then INVALID
          else if c mod 4 = 0 then INVALID
          else if c mod 4 = 1 then LOG_MSG
          else if c mod 4 = 2 then CHECKPOINT
          else UNKNOWN (c mod 4), ins1))"

definition sampleDecompressMetadata ::
    "istream \<Rightarrow> 32 word \<Rightarrow> 64 word \<Rightarrow> DecompressedMetadata \<times> istream" where
  "sampleDecompressMetadata ins lastF lastT =
     (let (hdr, ins1) = sampleByte ins;
          (df, ins2) = sampleByte ins1;
          (dt, ins3) = sampleByte ins2
      in (\<lparr>fmtId = lastF + ucast df, timestamp = lastT + ucast dt\<rparr>, ins3))"

definition sampleReadCheckpoint :: "istream \<Rightarrow> Checkpoint \<times> istream" where
  "sampleReadCheckpoint ins =
     (let (hdr, ins1) = sampleByte ins;
          (c, ins2) = sampleByte ins1
      in (\<lparr>cyclesPerSecond = real (unat c)\<rparr>, ins2))"

definition sampleHelpers :: helpers where
  "sampleHelpers =
     \<lparr>peekEntryType = samplePeekEntryType,
      decompressMetadata = sampleDecompressMetadata,
      readCheckpoint = sampleReadCheckpoint,
      decompressAndPrintFnArray =
        [\<lambda>ins. (''started'', ins),
         \<lambda>ins. (''tick'', snd (sampleByte ins))],
      toSeconds = (\<lambda>cycles. real (unat cycles) / 1000)\<rparr>"

text \<open>A machine on which the allocation succeeds and one file, \<open>''log''\<close>, exists.\<close>

definition sampleWorld :: "byte list \<Rightarrow> world" where
  "sampleWorld bs = \<lparr>callocOk = True, files = (\<lambda>f. if f = ''log'' then Some bs else None)\<rparr>"

section \<open>Unfolding the loop\<close>

lemma skipPadding_unfold:
  "skipPadding ins =
     (if fst (peek ins) = 0 \<and> good (snd (peek ins))
      then skipPadding (snd (get (snd (peek ins)))) else snd (peek ins))"
  by (subst skipPadding.simps) (simp add: case_prod_beta)

text \<open>The equations by which a run on a concrete file is computed.\<close>

lemmas stream_defs = eof_def good_def peek_def get_def opened_def
lemmas loop_defs = loopBody_def logMsgEntry_def checkpointEntry_def initState_def INT_MAX_def
  readRecord_def
lemmas sample_defs = sampleHelpers_def samplePeekEntryType_def sampleDecompressMetadata_def
  sampleReadCheckpoint_def sampleByte_def sampleWorld_def
lemmas args_defs = main_def parseCount_def stoi_def isspace_def isdigit_def digitsValue_def
  INT_MIN_def
lemmas run_defs = mainLoop.simps skipPadding_unfold stream_defs loop_defs sample_defs


lemma mainLoop_Continue:
  "\<not> eof (stream s) \<Longrightarrow> loopBody h m s = Continue s' \<Longrightarrow> mainLoop h m s = mainLoop h m s'"
  by (subst mainLoop.simps) simp

lemma mainLoop_Stop:
  "\<not> eof (stream s) \<Longrightarrow> loopBody h m s = Stop e s' \<Longrightarrow> mainLoop h m s = Some (e, s')"
  by (subst mainLoop.simps) simp

lemma mainLoop_limit:
  "0 < m \<Longrightarrow> m \<le> linesPrinted s \<Longrightarrow> mainLoop h m s = Some (LoopDone, s)"
  by (subst mainLoop.simps) (simp add: loopBody_def)

lemma prefixIndices_append: "prefixIndices (ps @ qs) = prefixIndices ps @ prefixIndices qs"
  by (induction ps rule: prefixIndices.induct) simp_all

lemma messageTexts_append: "messageTexts (ps @ qs) = messageTexts ps @ messageTexts qs"
  by (induction ps rule: messageTexts.induct) simp_all

lemma elapsedNs_append: "elapsedNs (ps @ qs) = elapsedNs ps @ elapsedNs qs"
  by (induction ps rule: elapsedNs.induct) simp_all

lemma logMsgEntry_Continue:
  assumes "logMsgEntry h s = Continue s'"
  shows "linesPrinted s' = linesPrinted s + 1"
    and "\<exists>x. out s' = out s @
           [MsgPrefix (linesPrinted s)
              (1000000000 * toSeconds h (lastTimestamp s' - lastTimestamp s)),
            MsgText x]"
  using assms
  by (auto simp: logMsgEntry_def Let_def split: if_splits prod.splits)

section \<open>Reading records and running the loop\<close>

lemma readRecord_loopBody:
  assumes "readRecord h k s = Some s'" and "\<not> (0 < m \<and> m \<le> linesPrinted s)"
  shows "\<not> eof (stream s) \<and> loopBody h m s = Continue s'"
proof -
  from assms(1) have ne: "\<not> eof (stream s)"
    by (auto simp: readRecord_def split: if_splits)
  obtain t ins1 where p: "peekEntryType h (stream s) = (t, ins1)"
    by (cases "peekEntryType h (stream s)")
  from assms(1) ne p have "loopBody h 0 s = Continue s'"
    by (cases k; cases "logMsgEntry h (s\<lparr>stream := ins1\<rparr>)")
       (simp_all add: readRecord_def loopBody_def split: if_splits)
  with assms(2) ne show ?thesis
    by (simp add: loopBody_def)
qed

lemma readRecord_effect:
  assumes "readRecord h k s = Some s'"
  shows "linesPrinted s' = linesPrinted s + (if k = LogMessageRec then 1 else 0)"
    and "prefixIndices (out s') =
         prefixIndices (out s) @ (if k = LogMessageRec then [linesPrinted s] else [])"
    and "length (messageTexts (out s')) =
         length (messageTexts (out s)) + (if k = LogMessageRec then 1 else 0)"
proof -
  obtain t ins1 where p: "peekEntryType h (stream s) = (t, ins1)"
    by (cases "peekEntryType h (stream s)")
  have "linesPrinted s' = linesPrinted s + (if k = LogMessageRec then 1 else 0) \<and>
        prefixIndices (out s') =
          prefixIndices (out s) @ (if k = LogMessageRec then [linesPrinted s] else []) \<and>
        length (messageTexts (out s')) =
          length (messageTexts (out s)) + (if k = LogMessageRec then 1 else 0)"
  proof (cases k)
    case LogMessageRec
    with assms p have "logMsgEntry h (s\<lparr>stream := ins1\<rparr>) = Continue s'"
      by (simp add: readRecord_def split: if_splits step.splits)
    from logMsgEntry_Continue [OF this] LogMessageRec show ?thesis
      by (auto simp: prefixIndices_append messageTexts_append)
  next
    case CheckpointRec
    with assms p show ?thesis
      by (auto simp: readRecord_def checkpointEntry_def prefixIndices_append
            messageTexts_append split: if_splits prod.splits)
  next
    case PaddingRec
    with assms p show ?thesis
      by (auto simp: readRecord_def split: if_splits)
  qed
  then show "linesPrinted s' = linesPrinted s + (if k = LogMessageRec then 1 else 0)"
    and "prefixIndices (out s') =
         prefixIndices (out s) @ (if k = LogMessageRec then [linesPrinted s] else [])"
    and "length (messageTexts (out s')) =
         length (messageTexts (out s)) + (if k = LogMessageRec then 1 else 0)"
    by simp_all
qed

lemma readRecords_effect:
  assumes "readRecords h ks s = Some s'"
  shows "linesPrinted s' = linesPrinted s + int (count_list ks LogMessageRec)"
    and "length (prefixIndices (out s')) =
         length (prefixIndices (out s)) + count_list ks LogMessageRec"
    and "length (messageTexts (out s')) =
         length (messageTexts (out s)) + count_list ks LogMessageRec"
  using assms
proof (induction ks arbitrary: s)
  case Nil
  {
    case 1 then show ?case by simp
  next
    case 2 then show ?case by simp
  next
    case 3 then show ?case by simp
  }
next
  case (Cons k ks)
  {
    case 1
    then obtain s1 where r: "readRecord h k s = Some s1" and rs: "readRecords h ks s1 = Some s'"
      by (auto split: option.splits)
    from Cons.IH(1) [OF rs] readRecord_effect(1) [OF r] show ?case by simp
  next
    case 2
    then obtain s1 where r: "readRecord h k s = Some s1" and rs: "readRecords h ks s1 = Some s'"
      by (auto split: option.splits)
    from Cons.IH(2) [OF rs] readRecord_effect(2) [OF r] show ?case by simp
  next
    case 3
    then obtain s1 where r: "readRecord h k s = Some s1" and rs: "readRecords h ks s1 = Some s'"
      by (auto split: option.splits)
    from Cons.IH(3) [OF rs] readRecord_effect(3) [OF r] show ?case by simp
  }
qed

lemma mainLoop_readRecords:
  assumes "readRecords h ks s = Some s'"
    and "0 < m \<longrightarrow> linesPrinted s + int (count_list (butlast ks) LogMessageRec) < m"
  shows "mainLoop h m s = mainLoop h m s'"
  using assms
proof (induction ks arbitrary: s)
  case Nil
  then show ?case by simp
next
  case (Cons k ks)
  from Cons.prems(1) obtain s1 where r: "readRecord h k s = Some s1"
    and rs: "readRecords h ks s1 = Some s'"
    by (auto split: option.splits)
  have lim: "\<not> (0 < m \<and> m \<le> linesPrinted s)"
    using Cons.prems(2) by (auto split: if_splits)
  have step: "mainLoop h m s = mainLoop h m s1"
    using readRecord_loopBody [OF r lim] by (simp add: mainLoop_Continue)
  show ?case
  proof (cases ks)
    case Nil
    with rs step show ?thesis by simp
  next
    case (Cons k' ks')
    then have "0 < m \<longrightarrow> linesPrinted s1 + int (count_list (butlast ks) LogMessageRec) < m"
      using Cons.prems(2) readRecord_effect(1) [OF r] by (auto split: if_splits)
    from Cons.IH [OF rs this] step show ?thesis by simp
  qed
qed

lemma count_list_butlast:
  "ks \<noteq> [] \<Longrightarrow> last ks = k \<Longrightarrow> count_list ks k = Suc (count_list (butlast ks) k)"
  by (induction ks) auto

section \<open>The print limit\<close>

lemma main_opened:
  assumes "callocOk w" and "files w file = Some bs" and "parseCount (file # more_args) = Inr m"
  shows "main h w prog (file # more_args) =
           (case mainLoop h m (initState file (opened bs)) of
              None \<Rightarrow> None
            | Some (LoopDone, s) \<Rightarrow>
                Some (Return 0, out s @ [DecompressionComplete (linesPrinted s)])
            | Some (ExitCalled c, s) \<Rightarrow> Some (Exit c, out s)
            | Some (Undefined u, s) \<Rightarrow> Some (UndefinedBehaviour u, out s))"
  using assms by (simp add: main_def)

text \<open>
  C1. Let the count argument give a positive print limit \<open>m\<close> and let the file start
  with records, the last of which is its \<open>m\<close>-th log message (whatever follows, further
  records included). Then the loop ends normally in the very state reached right after
  that record: the cursor is where the \<open>m\<close>-th message ended, nothing of the next
  record has been consumed, and exactly \<open>m\<close> message prefixes and \<open>m\<close> message bodies
  were printed. The program returns 0 after the summary line, which reports \<open>m\<close>.
\<close>

theorem print_limit_stops_after_m_messages:
  assumes "0 < m"
    and "callocOk w" and "files w file = Some bs"
    and "parseCount (file # arg # extra) = Inr m"
    and "readRecords h ks (initState file (opened bs)) = Some s'"
    and "int (count_list ks LogMessageRec) = m"
    and "last ks = LogMessageRec"
  shows "mainLoop h m (initState file (opened bs)) = Some (LoopDone, s') \<and>
         linesPrinted s' = m \<and>
         int (length (prefixIndices (out s'))) = m \<and>
         int (length (messageTexts (out s'))) = m \<and>
         main h w prog (file # arg # extra) =
           Some (Return 0, out s' @ [DecompressionComplete m])"
proof -
  from assms(1,6) have ne: "ks \<noteq> []" by auto
  have lp: "linesPrinted s' = m"
    using readRecords_effect(1) [OF assms(5)] assms(6) by (simp add: initState_def)
  have "0 < m \<longrightarrow>
        linesPrinted (initState file (opened bs)) +
          int (count_list (butlast ks) LogMessageRec) < m"
    using count_list_butlast [OF ne assms(7)] assms(6) by (simp add: initState_def)
  from mainLoop_readRecords [OF assms(5) this]
  have "mainLoop h m (initState file (opened bs)) = mainLoop h m s'" .
  also have "\<dots> = Some (LoopDone, s')"
    using assms(1) lp by (simp add: mainLoop_limit)
  finally have run: "mainLoop h m (initState file (opened bs)) = Some (LoopDone, s')" .
  have "length (prefixIndices (out s')) = count_list ks LogMessageRec"
    and "length (messageTexts (out s')) = count_list ks LogMessageRec"
    using readRecords_effect(2,3) [OF assms(5)] by (simp_all add: initState_def)
  with assms(6) have n: "int (length (prefixIndices (out s'))) = m"
    "int (length (messageTexts (out s'))) = m"
    by simp_all
  have "main h w prog (file # arg # extra) =
      Some (Return 0, out s' @ [DecompressionComplete m])"
    using main_opened [OF assms(2,3,4)] run lp by simp
  with run lp n show ?thesis by (intro conjI)
qed

theorem print_limit_stops_after_m_messages_witness:
  "parseCount [''log'', ''3''] = Inr 3 \<and>
   readRecords sampleHelpers [LogMessageRec, LogMessageRec, LogMessageRec]
     (initState ''log'' (opened
        [1, 0, 10, 1, 1, 5, 7, 1, 0, 3, 9, 1, 0, 3, 9, 1, 0, 3, 9, 1, 0, 3, 9, 1, 0, 3, 9,
         1, 0, 3, 9, 1, 0, 3, 9, 1, 0, 3, 9])) =
     Some \<lparr>stream = \<lparr>rest =
                [1, 0, 3, 9, 1, 0, 3, 9, 1, 0, 3, 9, 1, 0, 3, 9, 1, 0, 3, 9, 1, 0, 3, 9,
                 1, 0, 3, 9],
              eofbit = False, failbit = False\<rparr>,
            linesPrinted = 3, lastFmtId = 1, lastTimestamp = 18,
            out = [OpeningFile ''log'', MsgPrefix 0 10000000, MsgText ''started'',
                   MsgPrefix 1 5000000, MsgText ''tick'',
                   MsgPrefix 2 3000000, MsgText ''tick'']\<rparr> \<and>
   mainLoop sampleHelpers 3
     (initState ''log'' (opened
        [1, 0, 10, 1, 1, 5, 7, 1, 0, 3, 9, 1, 0, 3, 9, 1, 0, 3, 9, 1, 0, 3, 9, 1, 0, 3, 9,
         1, 0, 3, 9, 1, 0, 3, 9, 1, 0, 3, 9])) =
     Some (LoopDone,
           \<lparr>stream = \<lparr>rest =
                [1, 0, 3, 9, 1, 0, 3, 9, 1, 0, 3, 9, 1, 0, 3, 9, 1, 0, 3, 9, 1, 0, 3, 9,
                 1, 0, 3, 9],
              eofbit = False, failbit = False\<rparr>,
            linesPrinted = 3, lastFmtId = 1, lastTimestamp = 18,
            out = [OpeningFile ''log'', MsgPrefix 0 10000000, MsgText ''started'',
                   MsgPrefix 1 5000000, MsgText ''tick'',
                   MsgPrefix 2 3000000, MsgText ''tick'']\<rparr>) \<and>
   main sampleHelpers
     (sampleWorld
        [1, 0, 10, 1, 1, 5, 7, 1, 0, 3, 9, 1, 0, 3, 9, 1, 0, 3, 9, 1, 0, 3, 9, 1, 0, 3, 9,
         1, 0, 3, 9, 1, 0, 3, 9, 1, 0, 3, 9])
     ''decoder'' [''log'', ''3''] =
     Some (Return 0,
           [OpeningFile ''log'', MsgPrefix 0 10000000, MsgText ''started'',
            MsgPrefix 1 5000000, MsgText ''tick'', MsgPrefix 2 3000000, MsgText ''tick'',
            DecompressionComplete 3])"
proof -
  let ?bs = "[1, 0, 10, 1, 1, 5, 7, 1, 0, 3, 9, 1, 0, 3, 9, 1, 0, 3, 9, 1, 0, 3, 9, 1, 0, 3, 9,
         1, 0, 3, 9, 1, 0, 3, 9, 1, 0, 3, 9] :: byte list"
  let ?s = "\<lparr>stream = \<lparr>rest =
                [1, 0, 3, 9, 1, 0, 3, 9, 1, 0, 3, 9, 1, 0, 3, 9, 1, 0, 3, 9, 1, 0, 3, 9,
                 1, 0, 3, 9],
              eofbit = False, failbit = False\<rparr>,
            linesPrinted = 3, lastFmtId = 1, lastTimestamp = 18,
            out = [OpeningFile ''log'', MsgPrefix 0 10000000, MsgText ''started'',
                   MsgPrefix 1 5000000, MsgText ''tick'',
                   MsgPrefix 2 3000000, MsgText ''tick'']\<rparr>"
  have p: "(0::int) < 3" by simp
  have c: "callocOk (sampleWorld ?bs)" by (simp add: sampleWorld_def)
  have f: "files (sampleWorld ?bs) ''log'' = Some ?bs" by (simp add: sampleWorld_def)
  have a: "parseCount [''log'', ''3''] = Inr 3" by (simp add: args_defs INT_MAX_def)
  have r: "readRecords sampleHelpers [LogMessageRec, LogMessageRec, LogMessageRec]
     (initState ''log'' (opened ?bs)) = Some ?s"
    by (simp add: run_defs)
  have n: "int (count_list [LogMessageRec, LogMessageRec, LogMessageRec] LogMessageRec) = 3"
    by simp
  have l: "last [LogMessageRec, LogMessageRec, LogMessageRec] = LogMessageRec"
    by simp
  note t = print_limit_stops_after_m_messages [OF p c f a r n l, of "''decoder''"]
  from t have "mainLoop sampleHelpers 3 (initState ''log'' (opened ?bs)) = Some (LoopDone, ?s)"
    by (rule conjunct1)
  moreover from t have "main sampleHelpers (sampleWorld ?bs) ''decoder'' [''log'', ''3''] =
     Some (Return 0,
           [OpeningFile ''log'', MsgPrefix 0 10000000, MsgText ''started'',
            MsgPrefix 1 5000000, MsgText ''tick'', MsgPrefix 2 3000000, MsgText ''tick'',
            DecompressionComplete 3])"
    by simp
  ultimately show ?thesis using a r by (intro conjI)
qed

section \<open>A count of zero\<close>






section \<open>Message indices\<close>

lemma loopBody_indices:
  assumes "0 \<le> linesPrinted s"
    and "prefixIndices (out s) = map int [0..<nat (linesPrinted s)]"
  shows "loopBody h m s = Continue s' \<Longrightarrow>
           0 \<le> linesPrinted s' \<and> prefixIndices (out s') = map int [0..<nat (linesPrinted s')]"
    and "loopBody h m s = Stop e s' \<Longrightarrow> \<exists>n. prefixIndices (out s') = map int [0..<n]"
proof -
  have suc: "nat (linesPrinted s + 1) = Suc (nat (linesPrinted s))"
    using assms(1) by simp
  have ext: "prefixIndices (out s) @ [linesPrinted s] = map int [0..<Suc (nat (linesPrinted s))]"
    using assms by simp
  show "loopBody h m s = Continue s' \<Longrightarrow>
           0 \<le> linesPrinted s' \<and> prefixIndices (out s') = map int [0..<nat (linesPrinted s')]"
    using assms suc
    by (auto simp: loopBody_def logMsgEntry_def checkpointEntry_def Let_def
          prefixIndices_append split: if_splits prod.splits)
  show "\<exists>n. prefixIndices (out s') = map int [0..<n]" if stop: "loopBody h m s = Stop e s'"
  proof -
    from stop have "prefixIndices (out s') = prefixIndices (out s) \<or>
        prefixIndices (out s') = prefixIndices (out s) @ [linesPrinted s]"
      by (auto simp: loopBody_def logMsgEntry_def checkpointEntry_def Let_def
            prefixIndices_append split: if_splits prod.splits)
    then show ?thesis
    proof
      assume "prefixIndices (out s') = prefixIndices (out s)"
      with assms(2) have "prefixIndices (out s') = map int [0..<nat (linesPrinted s)]" by simp
      then show ?thesis ..
    next
      assume "prefixIndices (out s') = prefixIndices (out s) @ [linesPrinted s]"
      with ext have "prefixIndices (out s') = map int [0..<Suc (nat (linesPrinted s))]" by simp
      then show ?thesis ..
    qed
  qed
qed

lemma mainLoop_indices:
  assumes "mainLoop h m s = Some r"
  shows "0 \<le> linesPrinted s \<longrightarrow> prefixIndices (out s) = map int [0..<nat (linesPrinted s)] \<longrightarrow>
         (\<exists>n. prefixIndices (out (snd r)) = map int [0..<n])"
proof (rule mainLoop.raw_induct
    [where P = "\<lambda>h m s r. 0 \<le> linesPrinted s \<longrightarrow>
        prefixIndices (out s) = map int [0..<nat (linesPrinted s)] \<longrightarrow>
        (\<exists>n. prefixIndices (out (snd r)) = map int [0..<n])", OF _ assms])
  fix loop h m s r
  assume IH: "\<And>h m s r. loop h m s = Some r \<Longrightarrow>
      0 \<le> linesPrinted s \<longrightarrow> prefixIndices (out s) = map int [0..<nat (linesPrinted s)] \<longrightarrow>
      (\<exists>n. prefixIndices (out (snd r)) = map int [0..<n])"
    and eq: "(if eof (stream s) then Some (LoopDone, s)
              else case loopBody h m s of
                     Continue s' \<Rightarrow> loop h m s'
                   | Stop e s' \<Rightarrow> Some (e, s')) = Some r"
  show "0 \<le> linesPrinted s \<longrightarrow> prefixIndices (out s) = map int [0..<nat (linesPrinted s)] \<longrightarrow>
        (\<exists>n. prefixIndices (out (snd r)) = map int [0..<n])"
  proof (intro impI)
    assume inv: "0 \<le> linesPrinted s" "prefixIndices (out s) = map int [0..<nat (linesPrinted s)]"
    show "\<exists>n. prefixIndices (out (snd r)) = map int [0..<n]"
    proof (cases "eof (stream s)")
      case True
      with eq inv show ?thesis by auto
    next
      case False
      show ?thesis
      proof (cases "loopBody h m s")
        case (Continue s1)
        with False eq have "loop h m s1 = Some r" by simp
        from IH [OF this] loopBody_indices(1) [OF inv Continue] show ?thesis by simp
      next
        case (Stop e s1)
        with False eq have "r = (e, s1)" by simp
        with loopBody_indices(2) [OF inv Stop] show ?thesis by simp
      qed
    qed
  qed
qed

lemma readRecords_prefixIndices:
  assumes "readRecords h ks s = Some s'"
  shows "prefixIndices (out s') =
         prefixIndices (out s) @
           map (\<lambda>i. linesPrinted s + int i) [0..<count_list ks LogMessageRec]"
  using assms
proof (induction ks arbitrary: s)
  case Nil
  then show ?case by simp
next
  case (Cons k ks)
  then obtain s1 where r: "readRecord h k s = Some s1" and rs: "readRecords h ks s1 = Some s'"
    by (auto split: option.splits)
  show ?case
  proof (cases "k = LogMessageRec")
    case True
    with Cons.IH [OF rs] readRecord_effect(1,2) [OF r] show ?thesis
      by (simp del: upt_Suc add: map_upt_Suc add.assoc)
  next
    case False
    with Cons.IH [OF rs] readRecord_effect(1,2) [OF r] show ?thesis
      by simp
  qed
qed

text \<open>
  C9. Whenever the loop ends, the \<open>k\<close>-th message prefix printed (\<open>k \<ge> 1\<close>) carries the
  index \<open>k - 1\<close>: the prefix is printed with the counter's value before the increment.
  The same holds for the messages of any sequence of records read from the start of a
  stream, whether or not the loop ends after them.
\<close>

theorem message_index_is_zero_based:
  assumes "mainLoop h m (initState file ins) = Some (e, s')"
    and "1 \<le> k" and "k \<le> length (prefixIndices (out s'))"
    and "readRecords h ks (initState file ins) = Some s''"
    and "1 \<le> j" and "j \<le> count_list ks LogMessageRec"
  shows "prefixIndices (out s') ! (k - 1) = int k - 1 \<and>
         length (prefixIndices (out s'')) = count_list ks LogMessageRec \<and>
         prefixIndices (out s'') ! (j - 1) = int j - 1"
proof -
  have "\<exists>n. prefixIndices (out (snd (e, s'))) = map int [0..<n]"
    using mainLoop_indices [OF assms(1)] by (simp add: initState_def)
  then obtain n where n: "prefixIndices (out s') = map int [0..<n]" by auto
  with assms(3) have "k \<le> n" by simp
  with assms(2) n have run: "prefixIndices (out s') ! (k - 1) = int k - 1" by simp
  have recs: "prefixIndices (out s'') = map int [0..<count_list ks LogMessageRec]"
    using readRecords_prefixIndices [OF assms(4)] by (simp add: initState_def)
  with assms(5,6) have "prefixIndices (out s'') ! (j - 1) = int j - 1" by simp
  with run recs show ?thesis by simp
qed

theorem message_index_is_zero_based_witness:
  "mainLoop sampleHelpers 0
     (initState ''log'' (opened [1, 0, 10, 2, 9, 1, 1, 5, 7, 1, 0, 3, 8, 0])) =
     Some (LoopDone,
           \<lparr>stream = \<lparr>rest = [], eofbit = True, failbit = False\<rparr>,
            linesPrinted = 3, lastFmtId = 1, lastTimestamp = 18,
            out = [OpeningFile ''log'', MsgPrefix 0 10000000, MsgText ''started'',
                   FoundCheckpoint 9, MsgPrefix 1 5000000, MsgText ''tick'',
                   MsgPrefix 2 3000000, MsgText ''tick'']\<rparr>) \<and>
   readRecords sampleHelpers [LogMessageRec, CheckpointRec, LogMessageRec]
     (initState ''log'' (opened [1, 0, 10, 2, 9, 1, 1, 5, 7, 1, 0, 3, 8, 0])) =
     Some \<lparr>stream = \<lparr>rest = [1, 0, 3, 8, 0], eofbit = False, failbit = False\<rparr>,
           linesPrinted = 2, lastFmtId = 1, lastTimestamp = 15,
           out = [OpeningFile ''log'', MsgPrefix 0 10000000, MsgText ''started'',
                  FoundCheckpoint 9, MsgPrefix 1 5000000, MsgText ''tick'']\<rparr> \<and>
   prefixIndices [OpeningFile ''log'', MsgPrefix 0 10000000, MsgText ''started'',
                   FoundCheckpoint 9, MsgPrefix 1 5000000, MsgText ''tick'',
                   MsgPrefix 2 3000000, MsgText ''tick''] ! (3 - 1) = 2 \<and>
   prefixIndices [OpeningFile ''log'', MsgPrefix 0 10000000, MsgText ''started'',
                  FoundCheckpoint 9, MsgPrefix 1 5000000, MsgText ''tick''] ! (2 - 1) = 1"
proof -
  let ?bs = "[1, 0, 10, 2, 9, 1, 1, 5, 7, 1, 0, 3, 8, 0] :: byte list"
  let ?s = "\<lparr>stream = \<lparr>rest = [], eofbit = True, failbit = False\<rparr>,
            linesPrinted = 3, lastFmtId = 1, lastTimestamp = 18,
            out = [OpeningFile ''log'', MsgPrefix 0 10000000, MsgText ''started'',
                   FoundCheckpoint 9, MsgPrefix 1 5000000, MsgText ''tick'',
                   MsgPrefix 2 3000000, MsgText ''tick'']\<rparr>"
  let ?t = "\<lparr>stream = \<lparr>rest = [1, 0, 3, 8, 0], eofbit = False, failbit = False\<rparr>,
           linesPrinted = 2, lastFmtId = 1, lastTimestamp = 15,
           out = [OpeningFile ''log'', MsgPrefix 0 10000000, MsgText ''started'',
                  FoundCheckpoint 9, MsgPrefix 1 5000000, MsgText ''tick'']\<rparr>"
  have r: "mainLoop sampleHelpers 0 (initState ''log'' (opened ?bs)) = Some (LoopDone, ?s)"
    by (simp add: run_defs)
  have k: "(1::nat) \<le> 3" "3 \<le> length (prefixIndices (out ?s))" by simp_all
  have q: "readRecords sampleHelpers [LogMessageRec, CheckpointRec, LogMessageRec]
     (initState ''log'' (opened ?bs)) = Some ?t"
    by (simp add: run_defs)
  have j: "(1::nat) \<le> 2" "2 \<le> count_list [LogMessageRec, CheckpointRec, LogMessageRec] LogMessageRec"
    by simp_all
  from message_index_is_zero_based [OF r k q j] r q show ?thesis by simp
qed

section \<open>The running state\<close>

text \<open>
  C5. The loop is entered with \<open>lastFmtId\<close> and \<open>lastTimestamp\<close> zero. A pass of the
  loop that decodes a log message (metadata and arguments) leaves them equal to the
  format id and the timestamp just decoded. A pass at a checkpoint continues and
  changes neither of them nor the line counter; nor does any other pass that is not a
  log message.
\<close>

theorem running_state_follows_log_messages:
  assumes "peekEntryType h (stream s1) = (LOG_MSG, i1)"
    and "loopBody h m s1 = Continue s1'"
    and "peekEntryType h (stream s2) = (CHECKPOINT, i2)"
    and "\<not> (0 < m \<and> m \<le> linesPrinted s2)"
    and "peekEntryType h (stream s3) = (t3, i3)" and "t3 \<noteq> LOG_MSG"
    and "loopBody h m s3 = Continue s3'"
  shows "lastFmtId (initState file ins) = 0 \<and> lastTimestamp (initState file ins) = 0 \<and>
         lastFmtId s1' = fmtId (fst (decompressMetadata h i1 (lastFmtId s1) (lastTimestamp s1))) \<and>
         lastTimestamp s1' =
           timestamp (fst (decompressMetadata h i1 (lastFmtId s1) (lastTimestamp s1))) \<and>
         (\<exists>s2'. loopBody h m s2 = Continue s2' \<and> lastFmtId s2' = lastFmtId s2 \<and>
                lastTimestamp s2' = lastTimestamp s2 \<and> linesPrinted s2' = linesPrinted s2) \<and>
         lastFmtId s3' = lastFmtId s3 \<and> lastTimestamp s3' = lastTimestamp s3 \<and>
         linesPrinted s3' = linesPrinted s3"
proof -
  have init: "lastFmtId (initState file ins) = 0 \<and> lastTimestamp (initState file ins) = 0"
    by (simp add: initState_def)
  from assms(2) have "logMsgEntry h (s1\<lparr>stream := i1\<rparr>) = Continue s1'"
    using assms(1) by (simp add: loopBody_def Let_def split: if_splits)
  then have msg: "lastFmtId s1' =
        fmtId (fst (decompressMetadata h i1 (lastFmtId s1) (lastTimestamp s1))) \<and>
      lastTimestamp s1' =
        timestamp (fst (decompressMetadata h i1 (lastFmtId s1) (lastTimestamp s1)))"
    by (auto simp: logMsgEntry_def Let_def split: if_splits prod.splits)
  have cp: "loopBody h m s2 = Continue (checkpointEntry h (s2\<lparr>stream := i2\<rparr>))"
    using assms(3,4) by (simp add: loopBody_def Let_def)
  have cp': "lastFmtId (checkpointEntry h (s2\<lparr>stream := i2\<rparr>)) = lastFmtId s2 \<and>
      lastTimestamp (checkpointEntry h (s2\<lparr>stream := i2\<rparr>)) = lastTimestamp s2 \<and>
      linesPrinted (checkpointEntry h (s2\<lparr>stream := i2\<rparr>)) = linesPrinted s2"
    by (simp add: checkpointEntry_def split: prod.splits)
  have other: "lastFmtId s3' = lastFmtId s3 \<and> lastTimestamp s3' = lastTimestamp s3 \<and>
      linesPrinted s3' = linesPrinted s3"
    using assms(5,6,7)
    by (auto simp: loopBody_def checkpointEntry_def Let_def split: if_splits prod.splits)
  from init msg cp cp' other show ?thesis by blast
qed

theorem running_state_follows_log_messages_witness:
  "peekEntryType sampleHelpers (stream (initState ''log'' (opened [1, 1, 10, 7]))) =
     (LOG_MSG, opened [1, 1, 10, 7]) \<and>
   loopBody sampleHelpers 0 (initState ''log'' (opened [1, 1, 10, 7])) =
     Continue \<lparr>stream = opened [], linesPrinted = 1, lastFmtId = 1, lastTimestamp = 10,
               out = [OpeningFile ''log'', MsgPrefix 0 10000000, MsgText ''tick'']\<rparr> \<and>
   peekEntryType sampleHelpers
     (stream \<lparr>stream = opened [2, 9, 0], linesPrinted = 1, lastFmtId = 1, lastTimestamp = 10,
              out = []\<rparr>) = (CHECKPOINT, opened [2, 9, 0]) \<and>
   \<not> ((0::int) < 0 \<and> 0 \<le> linesPrinted \<lparr>stream = opened [2, 9, 0], linesPrinted = 1,
        lastFmtId = 1, lastTimestamp = 10, out = []\<rparr>) \<and>
   peekEntryType sampleHelpers
     (stream \<lparr>stream = opened [0, 0, 1], linesPrinted = 1, lastFmtId = 1, lastTimestamp = 10,
              out = []\<rparr>) = (INVALID, opened [0, 0, 1]) \<and>
   INVALID \<noteq> LOG_MSG \<and>
   loopBody sampleHelpers 0
     \<lparr>stream = opened [0, 0, 1], linesPrinted = 1, lastFmtId = 1, lastTimestamp = 10, out = []\<rparr> =
     Continue \<lparr>stream = opened [1], linesPrinted = 1, lastFmtId = 1, lastTimestamp = 10,
               out = []\<rparr> \<and>
   lastFmtId \<lparr>stream = opened [], linesPrinted = 1, lastFmtId = 1, lastTimestamp = 10,
      out = [OpeningFile ''log'', MsgPrefix 0 10000000, MsgText ''tick'']\<rparr> =
     fmtId (fst (decompressMetadata sampleHelpers (opened [1, 1, 10, 7]) 0 0)) \<and>
   (\<exists>s2'. loopBody sampleHelpers 0
       \<lparr>stream = opened [2, 9, 0], linesPrinted = 1, lastFmtId = 1, lastTimestamp = 10,
        out = []\<rparr> = Continue s2' \<and>
      lastFmtId s2' = 1 \<and> lastTimestamp s2' = 10 \<and> linesPrinted s2' = 1)"
proof -
  have a1: "peekEntryType sampleHelpers (stream (initState ''log'' (opened [1, 1, 10, 7]))) =
     (LOG_MSG, opened [1, 1, 10, 7])"
    by (simp add: run_defs)
  have a2: "loopBody sampleHelpers 0 (initState ''log'' (opened [1, 1, 10, 7])) =
     Continue \<lparr>stream = opened [], linesPrinted = 1, lastFmtId = 1, lastTimestamp = 10,
               out = [OpeningFile ''log'', MsgPrefix 0 10000000, MsgText ''tick'']\<rparr>"
    by (simp add: run_defs)
  have a3: "peekEntryType sampleHelpers
     (stream \<lparr>stream = opened [2, 9, 0], linesPrinted = 1, lastFmtId = 1, lastTimestamp = 10,
              out = []\<rparr>) = (CHECKPOINT, opened [2, 9, 0])"
    by (simp add: run_defs)
  have a4: "\<not> ((0::int) < 0 \<and> 0 \<le> linesPrinted \<lparr>stream = opened [2, 9, 0], linesPrinted = 1,
        lastFmtId = 1, lastTimestamp = 10, out = []\<rparr>)"
    by simp
  have a5: "peekEntryType sampleHelpers
     (stream \<lparr>stream = opened [0, 0, 1], linesPrinted = 1, lastFmtId = 1, lastTimestamp = 10,
              out = []\<rparr>) = (INVALID, opened [0, 0, 1])"
    by (simp add: run_defs)
  have a6: "INVALID \<noteq> LOG_MSG" by simp
  have a7: "loopBody sampleHelpers 0
     \<lparr>stream = opened [0, 0, 1], linesPrinted = 1, lastFmtId = 1, lastTimestamp = 10, out = []\<rparr> =
     Continue \<lparr>stream = opened [1], linesPrinted = 1, lastFmtId = 1, lastTimestamp = 10,
               out = []\<rparr>"
    by (simp add: run_defs)
  from running_state_follows_log_messages [OF a1 a2 a3 a4 a5 a6 a7, of "''log''" "opened []"]
    a1 a2 a3 a5 a7
  show ?thesis by (simp add: initState_def)
qed

section \<open>Format ids without an entry\<close>

text \<open>
  The second log message of this file has format id 7 and the table has two entries.
  The program prints the prefix of the line and indexes the table at 7: no error is
  raised before the lookup, and the run does not end in a call of \<^verbatim>\<open>exit\<close>.
\<close>

theorem unknown_format_id_counterexample:
  "main sampleHelpers (sampleWorld [1, 0, 10, 1, 7, 5, 9]) ''decoder'' [''log''] =
     Some (UndefinedBehaviour IndexOutOfRange,
           [OpeningFile ''log'', MsgPrefix 0 10000000, MsgText ''started'',
            MsgPrefix 1 5000000])"
  by (simp add: args_defs run_defs)

text \<open>
  C3, as the program has it. When a log message is read, the table is indexed with the
  decoded format id and nothing checks the id before: the pass of the loop ends in an
  out-of-range lookup, after the prefix of the line has been printed, exactly when the
  format id is not below the size of the table, and it never ends in a call of
  \<^verbatim>\<open>exit\<close>.
\<close>

theorem format_id_lookup_is_unchecked:
  assumes "\<not> (0 < m \<and> m \<le> linesPrinted s)"
    and "peekEntryType h (stream s) = (LOG_MSG, ins1)"
    and "decompressMetadata h ins1 (lastFmtId s) (lastTimestamp s) = (dm, ins2)"
  shows "(loopBody h m s =
            Stop (Undefined IndexOutOfRange)
              (s\<lparr>stream := ins2,
                 out := out s @ [MsgPrefix (linesPrinted s)
                   (1000000000 * toSeconds h (timestamp dm - lastTimestamp s))]\<rparr>)) =
         (length (decompressAndPrintFnArray h) \<le> unat (fmtId dm)) \<and>
         (\<forall>c s'. loopBody h m s \<noteq> Stop (ExitCalled c) s')"
  using assms
  by (auto simp: loopBody_def logMsgEntry_def Let_def split: prod.splits)

theorem format_id_lookup_is_unchecked_witness:
  "\<not> ((0::int) < 0 \<and> 0 \<le> linesPrinted (initState ''log'' (opened [1, 7, 5, 9]))) \<and>
   peekEntryType sampleHelpers (stream (initState ''log'' (opened [1, 7, 5, 9]))) =
     (LOG_MSG, opened [1, 7, 5, 9]) \<and>
   decompressMetadata sampleHelpers (opened [1, 7, 5, 9]) 0 0 =
     (\<lparr>fmtId = 7, timestamp = 5\<rparr>, opened [9]) \<and>
   length (decompressAndPrintFnArray sampleHelpers) \<le> unat (7 :: 32 word) \<and>
   loopBody sampleHelpers 0 (initState ''log'' (opened [1, 7, 5, 9])) =
     Stop (Undefined IndexOutOfRange)
       \<lparr>stream = opened [9], linesPrinted = 0, lastFmtId = 0, lastTimestamp = 0,
        out = [OpeningFile ''log'', MsgPrefix 0 5000000]\<rparr>"
proof -
  have a1: "\<not> ((0::int) < 0 \<and> 0 \<le> linesPrinted (initState ''log'' (opened [1, 7, 5, 9])))"
    by simp
  have a2: "peekEntryType sampleHelpers (stream (initState ''log'' (opened [1, 7, 5, 9]))) =
     (LOG_MSG, opened [1, 7, 5, 9])"
    by (simp add: run_defs)
  have a3: "decompressMetadata sampleHelpers
      (opened [1, 7, 5, 9]) (lastFmtId (initState ''log'' (opened [1, 7, 5, 9])))
      (lastTimestamp (initState ''log'' (opened [1, 7, 5, 9]))) =
     (\<lparr>fmtId = 7, timestamp = 5\<rparr>, opened [9])"
    by (simp add: run_defs)
  have a4: "length (decompressAndPrintFnArray sampleHelpers) \<le> unat (7 :: 32 word)"
    by (simp add: sample_defs)
  from format_id_lookup_is_unchecked [OF a1 a2 a3] a1 a2 a3 a4
  show ?thesis by (simp add: initState_def sampleHelpers_def)
qed

section \<open>The calibration of a checkpoint\<close>

text \<open>
  Two files that differ only in the cycles per second of their checkpoint, 5 and 9. The
  checkpoint line shows the value. The first message comes 10 cycles after zero: with
  the value of the checkpoint its elapsed time would be \<open>specElapsedNs 5 10\<close>, two
  seconds, in the first run and another value in the second. Both runs print the same
  elapsed times, those of the decoding machine's own calibration.
\<close>

theorem checkpoint_calibration_counterexample:
  "main sampleHelpers (sampleWorld [2, 5, 1, 0, 10, 1, 1, 5, 7, 0]) ''decoder'' [''log''] =
     Some (Return 0,
           [OpeningFile ''log'', FoundCheckpoint 5, MsgPrefix 0 10000000, MsgText ''started'',
            MsgPrefix 1 5000000, MsgText ''tick'', DecompressionComplete 2]) \<and>
   main sampleHelpers (sampleWorld [2, 9, 1, 0, 10, 1, 1, 5, 7, 0]) ''decoder'' [''log''] =
     Some (Return 0,
           [OpeningFile ''log'', FoundCheckpoint 9, MsgPrefix 0 10000000, MsgText ''started'',
            MsgPrefix 1 5000000, MsgText ''tick'', DecompressionComplete 2]) \<and>
   specElapsedNs 5 10 = 2000000000 \<and> specElapsedNs 5 5 = 1000000000"
  by (simp add: args_defs run_defs specElapsedNs_def)

lemma readRecord_LogMessageRec:
  assumes "readRecord h LogMessageRec s = Some s'"
  shows "\<exists>x. out s' = out s @
           [MsgPrefix (linesPrinted s)
              (1000000000 * toSeconds h (lastTimestamp s' - lastTimestamp s)),
            MsgText x]"
proof -
  obtain t ins1 where p: "peekEntryType h (stream s) = (t, ins1)"
    by (cases "peekEntryType h (stream s)")
  with assms have "logMsgEntry h (s\<lparr>stream := ins1\<rparr>) = Continue s'"
    by (simp add: readRecord_def split: if_splits step.splits)
  from logMsgEntry_Continue(2) [OF this] show ?thesis by simp
qed

lemma readRecord_CheckpointRec:
  assumes "readRecord h CheckpointRec s = Some s'"
  shows "s' = s\<lparr>stream := snd (readCheckpoint h (snd (peekEntryType h (stream s)))),
               out := out s @ [FoundCheckpoint
                 (cyclesPerSecond (fst (readCheckpoint h (snd (peekEntryType h (stream s))))))]\<rparr>"
  using assms
  by (auto simp: readRecord_def checkpointEntry_def split: if_splits prod.splits)

text \<open>
  C4, as the program has it. On a stream that starts with a checkpoint and two log
  messages and a limit of two, the loop ends normally after the second message. The
  checkpoint changes the cursor and prints its cycles per second, nothing else. The
  elapsed time of each message is \<open>toSeconds\<close> of the difference between its timestamp
  and the previous one (zero for the first), scaled to nanoseconds; \<open>toSeconds\<close> is
  given the cycle count alone, so the value read from the checkpoint is not applied.
\<close>

theorem checkpoint_value_is_only_printed:
  assumes "readRecords h [CheckpointRec] (initState file ins) = Some s0"
    and "readRecords h [CheckpointRec, LogMessageRec] (initState file ins) = Some s1"
    and "readRecords h [CheckpointRec, LogMessageRec, LogMessageRec] (initState file ins) = Some s2"
  shows "mainLoop h 2 (initState file ins) = Some (LoopDone, s2) \<and>
         s0 = (initState file ins)
                \<lparr>stream := snd (readCheckpoint h (snd (peekEntryType h ins))),
                 out := [OpeningFile file,
                         FoundCheckpoint
                           (cyclesPerSecond (fst (readCheckpoint h (snd (peekEntryType h ins)))))]\<rparr> \<and>
         elapsedNs (out s2) =
           [1000000000 * toSeconds h (lastTimestamp s1 - 0),
            1000000000 * toSeconds h (lastTimestamp s2 - lastTimestamp s1)] \<and>
         prefixIndices (out s2) = [0, 1]"
proof -
  from assms(1) have r0: "readRecord h CheckpointRec (initState file ins) = Some s0"
    by (simp split: option.splits)
  with assms(2) have r1: "readRecord h LogMessageRec s0 = Some s1"
    by (simp split: option.splits)
  with r0 assms(3) have r2: "readRecord h LogMessageRec s1 = Some s2"
    by (simp split: option.splits)
  have s0: "s0 = (initState file ins)
                \<lparr>stream := snd (readCheckpoint h (snd (peekEntryType h ins))),
                 out := [OpeningFile file,
                         FoundCheckpoint
                           (cyclesPerSecond (fst (readCheckpoint h (snd (peekEntryType h ins)))))]\<rparr>"
    using readRecord_CheckpointRec [OF r0] by (simp add: initState_def)
  then have z: "lastTimestamp s0 = 0" "linesPrinted s0 = 0" "elapsedNs (out s0) = []"
    "prefixIndices (out s0) = []"
    by (simp_all add: initState_def)
  from readRecord_LogMessageRec [OF r1] z obtain x1 where
    o1: "out s1 = out s0 @ [MsgPrefix 0 (1000000000 * toSeconds h (lastTimestamp s1 - 0)), MsgText x1]"
    by auto
  have l1: "linesPrinted s1 = 1"
    using readRecord_effect(1) [OF r1] z by simp
  from readRecord_LogMessageRec [OF r2] l1 obtain x2 where
    o2: "out s2 = out s1 @
      [MsgPrefix 1 (1000000000 * toSeconds h (lastTimestamp s2 - lastTimestamp s1)), MsgText x2]"
    by auto
  have e: "elapsedNs (out s2) =
           [1000000000 * toSeconds h (lastTimestamp s1 - 0),
            1000000000 * toSeconds h (lastTimestamp s2 - lastTimestamp s1)]"
    using o1 o2 z by (simp add: elapsedNs_append)
  have i: "prefixIndices (out s2) = [0, 1]"
    using o1 o2 z by (simp add: prefixIndices_append)
  have "0 < (2::int) \<longrightarrow>
      linesPrinted (initState file ins) +
        int (count_list (butlast [CheckpointRec, LogMessageRec, LogMessageRec]) LogMessageRec) < 2"
    by (simp add: initState_def)
  from mainLoop_readRecords [OF assms(3) this]
  have "mainLoop h 2 (initState file ins) = mainLoop h 2 s2" .
  moreover have "linesPrinted s2 = 2"
    using readRecord_effect(1) [OF r2] l1 by simp
  ultimately have "mainLoop h 2 (initState file ins) = Some (LoopDone, s2)"
    by (simp add: mainLoop_limit)
  with s0 e i show ?thesis by simp
qed

theorem checkpoint_value_is_only_printed_witness:
  "readRecords sampleHelpers [CheckpointRec] (initState ''log'' (opened [2, 5, 1, 0, 10, 1, 1, 5, 7, 0])) =
     Some \<lparr>stream = opened [1, 0, 10, 1, 1, 5, 7, 0], linesPrinted = 0, lastFmtId = 0,
           lastTimestamp = 0, out = [OpeningFile ''log'', FoundCheckpoint 5]\<rparr> \<and>
   readRecords sampleHelpers [CheckpointRec, LogMessageRec]
       (initState ''log'' (opened [2, 5, 1, 0, 10, 1, 1, 5, 7, 0])) =
     Some \<lparr>stream = opened [1, 1, 5, 7, 0], linesPrinted = 1, lastFmtId = 0,
           lastTimestamp = 10,
           out = [OpeningFile ''log'', FoundCheckpoint 5, MsgPrefix 0 10000000,
                  MsgText ''started'']\<rparr> \<and>
   readRecords sampleHelpers [CheckpointRec, LogMessageRec, LogMessageRec]
       (initState ''log'' (opened [2, 5, 1, 0, 10, 1, 1, 5, 7, 0])) =
     Some \<lparr>stream = opened [0], linesPrinted = 2, lastFmtId = 1, lastTimestamp = 15,
           out = [OpeningFile ''log'', FoundCheckpoint 5, MsgPrefix 0 10000000,
                  MsgText ''started'', MsgPrefix 1 5000000, MsgText ''tick'']\<rparr> \<and>
   mainLoop sampleHelpers 2 (initState ''log'' (opened [2, 5, 1, 0, 10, 1, 1, 5, 7, 0])) =
     Some (LoopDone,
       \<lparr>stream = opened [0], linesPrinted = 2, lastFmtId = 1, lastTimestamp = 15,
        out = [OpeningFile ''log'', FoundCheckpoint 5, MsgPrefix 0 10000000,
               MsgText ''started'', MsgPrefix 1 5000000, MsgText ''tick'']\<rparr>) \<and>
   elapsedNs [OpeningFile ''log'', FoundCheckpoint 5, MsgPrefix 0 10000000,
               MsgText ''started'', MsgPrefix 1 5000000, MsgText ''tick''] =
     [1000000000 * toSeconds sampleHelpers (10 - 0),
      1000000000 * toSeconds sampleHelpers (15 - 10)]"
proof -
  have r0: "readRecords sampleHelpers [CheckpointRec]
       (initState ''log'' (opened [2, 5, 1, 0, 10, 1, 1, 5, 7, 0])) =
     Some \<lparr>stream = opened [1, 0, 10, 1, 1, 5, 7, 0], linesPrinted = 0, lastFmtId = 0,
           lastTimestamp = 0, out = [OpeningFile ''log'', FoundCheckpoint 5]\<rparr>"
    by (simp add: run_defs)
  have r1: "readRecords sampleHelpers [CheckpointRec, LogMessageRec]
       (initState ''log'' (opened [2, 5, 1, 0, 10, 1, 1, 5, 7, 0])) =
     Some \<lparr>stream = opened [1, 1, 5, 7, 0], linesPrinted = 1, lastFmtId = 0,
           lastTimestamp = 10,
           out = [OpeningFile ''log'', FoundCheckpoint 5, MsgPrefix 0 10000000,
                  MsgText ''started'']\<rparr>"
    by (simp add: run_defs)
  have r2: "readRecords sampleHelpers [CheckpointRec, LogMessageRec, LogMessageRec]
       (initState ''log'' (opened [2, 5, 1, 0, 10, 1, 1, 5, 7, 0])) =
     Some \<lparr>stream = opened [0], linesPrinted = 2, lastFmtId = 1, lastTimestamp = 15,
           out = [OpeningFile ''log'', FoundCheckpoint 5, MsgPrefix 0 10000000,
                  MsgText ''started'', MsgPrefix 1 5000000, MsgText ''tick'']\<rparr>"
    by (simp add: run_defs)
  from checkpoint_value_is_only_printed [OF r0 r1 r2] r0 r1 r2
  show ?thesis by simp
qed

section \<open>Unrecognised entry types\<close>

text \<open>
  After one message the tag 3 is peeked. The program prints the tag and calls
  \<^verbatim>\<open>exit(-1)\<close>; the number of lines printed, 1, is not reported: the summary line is
  never reached.
\<close>

theorem unknown_entry_type_counterexample:
  "main sampleHelpers (sampleWorld [1, 0, 10, 3, 1, 0, 4]) ''decoder'' [''log''] =
     Some (Exit (- 1),
           [OpeningFile ''log'', MsgPrefix 0 10000000, MsgText ''started'',
            NoMatchingEntryType (UNKNOWN 3)])"
  by (simp add: args_defs run_defs)

lemma loopBody_no_summary:
  assumes "DecompressionComplete n \<in> set (out s')"
  shows "loopBody h m s = Continue s' \<Longrightarrow> DecompressionComplete n \<in> set (out s)"
    and "loopBody h m s = Stop e s' \<Longrightarrow> DecompressionComplete n \<in> set (out s)"
  using assms
  by (auto simp: loopBody_def logMsgEntry_def checkpointEntry_def Let_def
        split: if_splits prod.splits)

lemma mainLoop_no_summary:
  assumes "mainLoop h m s = Some r"
  shows "DecompressionComplete n \<in> set (out (snd r)) \<longrightarrow> DecompressionComplete n \<in> set (out s)"
proof (rule mainLoop.raw_induct
    [where P = "\<lambda>h m s r. DecompressionComplete n \<in> set (out (snd r)) \<longrightarrow>
        DecompressionComplete n \<in> set (out s)", OF _ assms])
  fix loop h m s r
  assume IH: "\<And>h m s r. loop h m s = Some r \<Longrightarrow>
      DecompressionComplete n \<in> set (out (snd r)) \<longrightarrow> DecompressionComplete n \<in> set (out s)"
    and eq: "(if eof (stream s) then Some (LoopDone, s)
              else case loopBody h m s of
                     Continue s' \<Rightarrow> loop h m s'
                   | Stop e s' \<Rightarrow> Some (e, s')) = Some r"
  show "DecompressionComplete n \<in> set (out (snd r)) \<longrightarrow> DecompressionComplete n \<in> set (out s)"
  proof (cases "eof (stream s)")
    case True
    with eq show ?thesis by auto
  next
    case False
    show ?thesis
    proof (cases "loopBody h m s")
      case (Continue s1)
      with False eq have "loop h m s1 = Some r" by simp
      from IH [OF this] loopBody_no_summary(1) [OF _ Continue]
      show ?thesis by blast
    next
      case (Stop e s1)
      with False eq have "r = (e, s1)" by simp
      with loopBody_no_summary(2) [OF _ Stop] show ?thesis by auto
    qed
  qed
qed

lemma main_exit_no_summary:
  assumes "main h w prog args = Some (Exit c, msgs)"
  shows "DecompressionComplete n \<notin> set msgs"
proof (cases "args = [] \<or> \<not> callocOk w")
  case True
  with assms show ?thesis by (auto simp: main_def split: if_splits)
next
  case False
  then have a: "args \<noteq> []" "callocOk w" by simp_all
  show ?thesis
  proof (cases "parseCount args")
    case (Inl ms)
    with assms a have "msgs = ms" by (simp add: main_def)
    with Inl show ?thesis
      by (auto simp: parseCount_def split: if_splits sum.splits stoi_exception.splits)
  next
    case (Inr m)
    show ?thesis
    proof (cases "files w (args ! 0)")
      case None
      with assms a Inr show ?thesis by (auto simp: main_def)
    next
      case (Some bs)
      with assms a Inr obtain s where
        run: "mainLoop h m (initState (args ! 0) (opened bs)) = Some (ExitCalled c, s)"
        and msgs: "msgs = out s"
        by (auto simp: main_def split: option.splits loop_end.splits)
      from mainLoop_no_summary [OF run, of n] msgs show ?thesis
        by (auto simp: initState_def)
    qed
  qed
qed

text \<open>
  C6, as the program has it. When the loop is entered, the limit is not reached and the
  tag peeked is none of \<open>LOG_MSG\<close>, \<open>CHECKPOINT\<close>, \<open>INVALID\<close>, the run ends at once in
  \<^verbatim>\<open>exit(-1)\<close>; the only thing printed at that point is the tag. No run of the
  program that ends in a call of \<^verbatim>\<open>exit\<close> prints the summary line with the number of
  lines.
\<close>

theorem unknown_entry_type_exits:
  assumes "\<not> eof (stream s)"
    and "\<not> (0 < m \<and> m \<le> linesPrinted s)"
    and "peekEntryType h (stream s) = (t, ins1)"
    and "t \<noteq> LOG_MSG" and "t \<noteq> CHECKPOINT" and "t \<noteq> INVALID"
    and "main h w prog args = Some (Exit c, msgs)"
  shows "mainLoop h m s =
           Some (ExitCalled (- 1), s\<lparr>stream := ins1, out := out s @ [NoMatchingEntryType t]\<rparr>) \<and>
         DecompressionComplete n \<notin> set msgs"
proof -
  have "loopBody h m s =
          Stop (ExitCalled (- 1)) (s\<lparr>stream := ins1, out := out s @ [NoMatchingEntryType t]\<rparr>)"
    using assms(2-6) by (simp add: loopBody_def Let_def)
  with assms(1) main_exit_no_summary [OF assms(7)] show ?thesis by (simp add: mainLoop_Stop)
qed

theorem unknown_entry_type_exits_witness:
  "peekEntryType sampleHelpers (opened [3, 1, 0, 4]) = (UNKNOWN 3, opened [3, 1, 0, 4]) \<and>
   main sampleHelpers (sampleWorld [1, 0, 10, 3, 1, 0, 4]) ''decoder'' [''log''] =
     Some (Exit (- 1),
           [OpeningFile ''log'', MsgPrefix 0 10000000, MsgText ''started'',
            NoMatchingEntryType (UNKNOWN 3)]) \<and>
   mainLoop sampleHelpers 0
     \<lparr>stream = opened [3, 1, 0, 4], linesPrinted = 1, lastFmtId = 0,
      lastTimestamp = 10, out = [OpeningFile ''log'', MsgPrefix 0 10000000, MsgText ''started'']\<rparr> =
     Some (ExitCalled (- 1),
       \<lparr>stream = opened [3, 1, 0, 4], linesPrinted = 1, lastFmtId = 0, lastTimestamp = 10,
        out = [OpeningFile ''log'', MsgPrefix 0 10000000, MsgText ''started'',
               NoMatchingEntryType (UNKNOWN 3)]\<rparr>) \<and>
   DecompressionComplete 1 \<notin>
     set [OpeningFile ''log'', MsgPrefix 0 10000000, MsgText ''started'',
          NoMatchingEntryType (UNKNOWN 3)]"
proof -
  let ?s = "\<lparr>stream = opened [3, 1, 0, 4], linesPrinted = 1, lastFmtId = 0,
      lastTimestamp = 10, out = [OpeningFile ''log'', MsgPrefix 0 10000000, MsgText ''started'']\<rparr>"
  have a1: "\<not> eof (stream ?s)" by (simp add: stream_defs)
  have a2: "\<not> ((0::int) < 0 \<and> 0 \<le> linesPrinted ?s)" by simp
  have a3: "peekEntryType sampleHelpers (stream ?s) = (UNKNOWN 3, opened [3, 1, 0, 4])"
    by (simp add: stream_defs sample_defs)
  have a4: "UNKNOWN 3 \<noteq> LOG_MSG" "UNKNOWN 3 \<noteq> CHECKPOINT" "UNKNOWN 3 \<noteq> INVALID"
    by simp_all
  have a5: "main sampleHelpers (sampleWorld [1, 0, 10, 3, 1, 0, 4]) ''decoder'' [''log''] =
     Some (Exit (- 1),
           [OpeningFile ''log'', MsgPrefix 0 10000000, MsgText ''started'',
            NoMatchingEntryType (UNKNOWN 3)])"
    by (simp add: args_defs run_defs)
  from unknown_entry_type_exits [OF a1 a2 a3 a4 a5, of 1] a3 a5
  show ?thesis by simp
qed

section \<open>Usage errors\<close>

text \<open>
  A count that is not a number, a negative count and a file that cannot be opened all
  end in \<^verbatim>\<open>exit(-1)\<close>, not in \<^verbatim>\<open>exit(1)\<close>.
\<close>

theorem usage_error_status_counterexample:
  "main sampleHelpers (sampleWorld []) ''decoder'' [''log'', ''abc''] =
     Some (Exit (- 1), [InvalidCount ''abc'']) \<and>
   main sampleHelpers (sampleWorld []) ''decoder'' [''log'', ''-3''] =
     Some (Exit (- 1), [CountNotPositive ''-3'']) \<and>
   main sampleHelpers (sampleWorld []) ''decoder'' [''missing''] =
     Some (Exit (- 1), [UnableToOpen ''missing''])"
  by (simp add: args_defs sampleWorld_def INT_MAX_def)

text \<open>
  C7, as the program has it. Every usage error ends the program in a call of
  \<^verbatim>\<open>exit\<close> with nothing decoded printed: with status 1 when the file argument is
  missing, with status -1 in every other case.
\<close>

theorem usage_error_exits:
  assumes "usageError w args"
  shows "\<exists>msgs. main h w prog args = Some (Exit (if args = [] then 1 else - 1), msgs) \<and>
           prefixIndices msgs = [] \<and> messageTexts msgs = []"
proof (cases "args = []")
  case True
  then show ?thesis by (simp add: main_def)
next
  case False
  show ?thesis
  proof (cases "callocOk w")
    case False
    with \<open>args \<noteq> []\<close> show ?thesis by (simp add: main_def)
  next
    case True
    show ?thesis
    proof (cases "parseCount args")
      case (Inl msgs)
      then have "prefixIndices msgs = [] \<and> messageTexts msgs = []"
        by (auto simp: parseCount_def split: if_splits sum.splits stoi_exception.splits)
      with Inl True \<open>args \<noteq> []\<close> show ?thesis by (simp add: main_def)
    next
      case (Inr n)
      with assms \<open>args \<noteq> []\<close> have "files w (args ! 0) = None"
        by (auto simp: usageError_def parseCount_def split: if_splits sum.splits stoi_exception.splits)
      with Inr True \<open>args \<noteq> []\<close> show ?thesis by (simp add: main_def)
    qed
  qed
qed

theorem usage_error_exits_witness:
  "usageError (sampleWorld []) [''log'', ''-3''] \<and>
   (\<exists>msgs. main sampleHelpers (sampleWorld []) ''decoder'' [''log'', ''-3''] =
             Some (Exit (- 1), msgs) \<and> prefixIndices msgs = [] \<and> messageTexts msgs = [])"
proof -
  have u: "usageError (sampleWorld []) [''log'', ''-3'']"
    by (simp add: usageError_def args_defs INT_MAX_def)
  from usage_error_exits [OF u, of sampleHelpers "''decoder''"] u show ?thesis by simp
qed

section \<open>Padding followed by garbage\<close>

lemma mainLoop_no_progress:
  assumes "\<not> eof (stream s)" and "loopBody h m s = Continue s"
  shows "mainLoop h m s = None"
proof (rule ccontr)
  assume "mainLoop h m s \<noteq> None"
  then obtain r where r: "mainLoop h m s = Some r" by auto
  have "\<not> (h' = h \<and> m' = m \<and> s' = s)" if "mainLoop h' m' s' = Some r'" for h' m' s' r'
  proof (rule mainLoop.raw_induct
      [where P = "\<lambda>h' m' s' r'. \<not> (h' = h \<and> m' = m \<and> s' = s)", OF _ that])
    fix loop h' m' s' r'
    assume IH: "\<And>h' m' s' r'. loop h' m' s' = Some r' \<Longrightarrow> \<not> (h' = h \<and> m' = m \<and> s' = s)"
      and eq: "(if eof (stream s') then Some (LoopDone, s')
                else case loopBody h' m' s' of
                       Continue s'' \<Rightarrow> loop h' m' s''
                     | Stop e s'' \<Rightarrow> Some (e, s'')) = Some r'"
    show "\<not> (h' = h \<and> m' = m \<and> s' = s)"
    proof
      assume "h' = h \<and> m' = m \<and> s' = s"
      with eq assms have "loop h m s = Some r'" by simp
      from IH [OF this] show False by simp
    qed
  qed
  from this [OF r] show False by simp
qed

lemma garbage_is_never_skipped:
  assumes "peekEntryType h (stream s) = (INVALID, stream s)"
    and "good (stream s)" and "rest (stream s) = b # bs" and "b \<noteq> 0"
    and "\<not> (0 < m \<and> m \<le> linesPrinted s)"
  shows "mainLoop h m s = None"
proof -
  have "peek (stream s) = (uint b, stream s)"
    using assms(2,3) by (simp add: peek_def)
  moreover have "uint b \<noteq> 0"
    using assms(4) by (simp add: uint_0_iff)
  ultimately have "skipPadding (stream s) = stream s"
    by (subst skipPadding.simps) simp
  with assms(1,5) have "loopBody h m s = Continue s"
    by (simp add: loopBody_def Let_def)
  moreover from assms(2) have "\<not> eof (stream s)"
    by (simp add: good_def eof_def)
  ultimately show ?thesis by (rule mainLoop_no_progress [rotated])
qed

text \<open>
  C2. The specification requires a fatal error when the byte after the padding is no
  recognised tag, so that the loop ends on every finite file. The program has no such
  check: after \<open>INVALID\<close> is peeked it skips zero bytes and goes round the loop again,
  and at a non-zero byte nothing is skipped. With the sample codec the byte 4 is
  non-zero and its tag bits are those of \<open>INVALID\<close>; on a file with one message, two
  padding bytes and that byte, the run never ends.
\<close>

theorem garbage_after_padding_never_ends:
  "main sampleHelpers (sampleWorld [1, 0, 10, 0, 0, 4, 1, 0, 3]) ''decoder'' [''log''] = None"
proof -
  let ?s = "\<lparr>stream = opened [4, 1, 0, 3], linesPrinted = 1, lastFmtId = 0, lastTimestamp = 10,
             out = [OpeningFile ''log'', MsgPrefix 0 10000000, MsgText ''started'']\<rparr>"
  have "readRecords sampleHelpers [LogMessageRec, PaddingRec]
          (initState ''log'' (opened [1, 0, 10, 0, 0, 4, 1, 0, 3])) = Some ?s"
    by (simp add: run_defs)
  from mainLoop_readRecords [OF this, of 0]
  have "mainLoop sampleHelpers 0 (initState ''log'' (opened [1, 0, 10, 0, 0, 4, 1, 0, 3])) =
        mainLoop sampleHelpers 0 ?s"
    by simp
  also have "\<dots> = None"
    by (rule garbage_is_never_skipped [where b = 4 and bs = "[1, 0, 3]"])
       (simp_all add: stream_defs sample_defs)
  finally show ?thesis
    by (simp add: args_defs sampleWorld_def)
qed

section \<open>Count arguments with trailing text\<close>

text \<open>
  The argument \<open>''99999999999x''\<close> has a numeric prefix followed by text. It is not
  parsed as its leading integer: the program reports that the count is too large and
  calls \<^verbatim>\<open>exit(-1)\<close>.
\<close>

theorem count_with_trailing_text_counterexample:
  "parseCount [''log'', ''99999999999x''] =
     Inl [CountTooLarge ''99999999999x'', ExcludeParameterHint] \<and>
   hasNumericPrefix ''99999999999x'' \<and>
   main sampleHelpers (sampleWorld []) ''decoder'' [''log'', ''99999999999x''] =
     Some (Exit (- 1), [CountTooLarge ''99999999999x'', ExcludeParameterHint])"
  by (simp add: args_defs hasNumericPrefix_def sampleWorld_def INT_MAX_def)

lemma isdigit_not_space_or_sign:
  assumes "isdigit c"
  shows "\<not> isspace c" and "c \<noteq> CHR ''-''" and "c \<noteq> CHR ''+''"
  using assms by (auto simp: isdigit_def isspace_def)

lemma foldl_digits_nonneg:
  "0 \<le> a \<Longrightarrow> \<forall>c\<in>set ds. isdigit c \<Longrightarrow>
   0 \<le> foldl (\<lambda>a c. 10 * a + (int (of_char c) - 48)) a ds"
proof (induction ds arbitrary: a)
  case Nil
  then show ?case by simp
next
  case (Cons d ds)
  from Cons.prems have "0 \<le> 10 * a + (int (of_char d) - 48)"
    by (simp add: isdigit_def)
  with Cons show ?case by simp
qed

lemma digitsValue_nonneg: "\<forall>c\<in>set ds. isdigit c \<Longrightarrow> 0 \<le> digitsValue ds"
  unfolding digitsValue_def by (rule foldl_digits_nonneg) simp_all

lemma stoi_of_parts:
  assumes "\<forall>c\<in>set ws. isspace c"
    and "sg = [] \<or> sg = ''+'' \<or> sg = ''-''"
    and "ds \<noteq> []" and "\<forall>c\<in>set ds. isdigit c"
    and "tail = [] \<or> \<not> isdigit (hd tail)"
  shows "stoi (ws @ sg @ ds @ tail) =
           (let v = (if sg = ''-'' then - digitsValue ds else digitsValue ds)
            in if v < INT_MIN \<or> INT_MAX < v then Inl out_of_range else Inr v)"
proof -
  from assms(3) obtain d ds' where ds: "ds = d # ds'" by (cases ds) auto
  with assms(4) have d: "isdigit d" by simp
  note nd = isdigit_not_space_or_sign [OF d]
  have sign_ns: "\<not> isspace CHR ''+''" "\<not> isspace CHR ''-''"
    by (simp_all add: isspace_def)
  have "dropWhile isspace (ws @ sg @ ds @ tail) = dropWhile isspace (sg @ ds @ tail)"
    using assms(1) by (simp add: dropWhile_append2)
  also have "\<dots> = sg @ ds @ tail"
    using assms(2) nd(1) sign_ns by (auto simp: ds)
  finally have drop: "dropWhile isspace (ws @ sg @ ds @ tail) = sg @ ds @ tail" .
  have "takeWhile isdigit tail = []"
    using assms(5) by (cases tail) auto
  with assms(4) have take: "takeWhile isdigit (ds @ tail) = ds"
    by simp
  from assms(2) consider "sg = []" | "sg = ''+''" | "sg = ''-''" by blast
  then show ?thesis
  proof cases
    case 1
    have "takeWhile isdigit (d # ds' @ tail) = d # ds'"
      using take by (simp add: ds)
    with 1 nd(2,3) show ?thesis
      unfolding stoi_def drop by (simp add: ds Let_def)
  next
    case 2
    with take assms(3) show ?thesis
      unfolding stoi_def drop by (simp add: Let_def)
  next
    case 3
    with take assms(3) show ?thesis
      unfolding stoi_def drop by (simp add: Let_def)
  qed
qed

lemma hasNumericPrefix_of_parts:
  assumes "\<forall>c\<in>set ws. isspace c"
    and "sg = [] \<or> sg = ''+'' \<or> sg = ''-''"
    and "ds \<noteq> []" and "\<forall>c\<in>set ds. isdigit c"
  shows "hasNumericPrefix (ws @ sg @ ds @ tail)"
proof -
  from assms(3) obtain d ds' where ds: "ds = d # ds'" by (cases ds) auto
  with assms(4) have d: "isdigit d" by simp
  note nd = isdigit_not_space_or_sign [OF d]
  have sign_ns: "\<not> isspace CHR ''+''" "\<not> isspace CHR ''-''"
    by (simp_all add: isspace_def)
  have "dropWhile isspace (ws @ sg @ ds @ tail) = dropWhile isspace (sg @ ds @ tail)"
    using assms(1) by (simp add: dropWhile_append2)
  also have "\<dots> = sg @ ds @ tail"
    using assms(2) nd(1) sign_ns by (auto simp: ds)
  finally have drop: "dropWhile isspace (ws @ sg @ ds @ tail) = sg @ ds @ tail" .
  from assms(2) d nd(2,3) show ?thesis
    unfolding hasNumericPrefix_def drop by (auto simp: ds)
qed

lemma parts_of_hasNumericPrefix:
  assumes "hasNumericPrefix arg"
  shows "\<exists>ws sg ds tail. arg = ws @ sg @ ds @ tail \<and> (\<forall>c\<in>set ws. isspace c) \<and>
           (sg = [] \<or> sg = ''+'' \<or> sg = ''-'') \<and> ds \<noteq> [] \<and> (\<forall>c\<in>set ds. isdigit c) \<and>
           (tail = [] \<or> \<not> isdigit (hd tail))"
proof -
  define ws where "ws = takeWhile isspace arg"
  define s1 where "s1 = dropWhile isspace arg"
  have arg: "arg = ws @ s1" and ws: "\<forall>c\<in>set ws. isspace c"
    by (auto simp: ws_def s1_def dest: set_takeWhileD)
  have "s1 \<noteq> []"
    using assms unfolding hasNumericPrefix_def s1_def [symmetric] by auto
  then obtain c cs where s1: "s1 = c # cs"
    by (cases s1) auto
  define sg where "sg = (if c = CHR ''-'' \<or> c = CHR ''+'' then [c] else [])"
  define s2 where "s2 = (if c = CHR ''-'' \<or> c = CHR ''+'' then cs else s1)"
  have split: "s1 = sg @ s2" and sg: "sg = [] \<or> sg = ''+'' \<or> sg = ''-''"
    by (auto simp: sg_def s2_def s1)
  have "s2 \<noteq> [] \<and> isdigit (hd s2)"
    using assms s1 unfolding hasNumericPrefix_def s1_def [symmetric] s2_def
    by (auto split: list.splits)
  then have ds: "takeWhile isdigit s2 \<noteq> []"
    by (cases s2) auto
  have "arg = ws @ sg @ takeWhile isdigit s2 @ dropWhile isdigit s2"
    using arg split by simp
  moreover have "\<forall>c\<in>set (takeWhile isdigit s2). isdigit c"
    by (auto dest: set_takeWhileD)
  moreover have "dropWhile isdigit s2 = [] \<or> \<not> isdigit (hd (dropWhile isdigit s2))"
    using hd_dropWhile [of isdigit s2] by blast
  ultimately show ?thesis using ws sg ds by blast
qed

lemma stoi_invalid_argument:
  "(stoi str = Inl invalid_argument) = (\<not> hasNumericPrefix str)"
proof (cases "dropWhile isspace str")
  case Nil
  show ?thesis
    unfolding stoi_def hasNumericPrefix_def Nil by simp
next
  case (Cons c cs)
  show ?thesis
  proof (cases "c = CHR ''-'' \<or> c = CHR ''+''")
    case True
    then show ?thesis
      unfolding stoi_def hasNumericPrefix_def Cons
      by (cases cs) (auto simp: Let_def)
  next
    case False
    then show ?thesis
      unfolding stoi_def hasNumericPrefix_def Cons
      by (auto simp: Let_def)
  qed
qed

text \<open>
  C10, as the program has it. The arguments with a numeric prefix are exactly those
  made of white space, one optional sign, one or more decimal digits and text that does
  not start with a digit. For such an argument the text after the digits is ignored
  and the count is decided by the leading integer alone, the digits read in base ten
  and negated after a minus sign: the argument is accepted with that integer as the
  limit when the integer is not negative and fits an \<^verbatim>\<open>int\<close>, it is rejected as too
  large when the integer does not fit an \<^verbatim>\<open>int\<close>, and as not positive when it is
  negative. The exit for an invalid number is taken exactly by the arguments without a
  numeric prefix.
\<close>

theorem count_with_trailing_text:
  assumes "\<forall>c\<in>set ws. isspace c"
    and "sg = [] \<or> sg = ''+'' \<or> sg = ''-''"
    and "ds \<noteq> []" and "\<forall>c\<in>set ds. isdigit c"
    and "tail = [] \<or> \<not> isdigit (hd tail)"
  shows "parseCount (file # (ws @ sg @ ds @ tail) # extra) =
           (let v = (if sg = ''-'' then - digitsValue ds else digitsValue ds)
            in if v < INT_MIN \<or> INT_MAX < v
               then Inl [CountTooLarge (ws @ sg @ ds @ tail), ExcludeParameterHint]
               else if v < 0 then Inl [CountNotPositive (ws @ sg @ ds @ tail)]
               else Inr v) \<and>
         0 \<le> digitsValue ds \<and>
         hasNumericPrefix (ws @ sg @ ds @ tail) \<and>
         hasNumericPrefix arg =
           (\<exists>ws sg ds tail. arg = ws @ sg @ ds @ tail \<and> (\<forall>c\<in>set ws. isspace c) \<and>
              (sg = [] \<or> sg = ''+'' \<or> sg = ''-'') \<and> ds \<noteq> [] \<and> (\<forall>c\<in>set ds. isdigit c) \<and>
              (tail = [] \<or> \<not> isdigit (hd tail))) \<and>
         (parseCount (file # arg # extra) = Inl [InvalidCount arg]) = (\<not> hasNumericPrefix arg)"
proof -
  have "parseCount (file # (ws @ sg @ ds @ tail) # extra) =
           (let v = (if sg = ''-'' then - digitsValue ds else digitsValue ds)
            in if v < INT_MIN \<or> INT_MAX < v
               then Inl [CountTooLarge (ws @ sg @ ds @ tail), ExcludeParameterHint]
               else if v < 0 then Inl [CountNotPositive (ws @ sg @ ds @ tail)]
               else Inr v)"
    using stoi_of_parts [OF assms] by (simp add: parseCount_def Let_def)
  moreover have "hasNumericPrefix arg =
           (\<exists>ws sg ds tail. arg = ws @ sg @ ds @ tail \<and> (\<forall>c\<in>set ws. isspace c) \<and>
              (sg = [] \<or> sg = ''+'' \<or> sg = ''-'') \<and> ds \<noteq> [] \<and> (\<forall>c\<in>set ds. isdigit c) \<and>
              (tail = [] \<or> \<not> isdigit (hd tail)))"
    using parts_of_hasNumericPrefix [of arg] hasNumericPrefix_of_parts by blast
  moreover have "(parseCount (file # arg # extra) = Inl [InvalidCount arg]) =
      (\<not> hasNumericPrefix arg)"
    using stoi_invalid_argument [of arg]
    by (auto simp: parseCount_def split: sum.splits stoi_exception.splits)
  ultimately show ?thesis
    using digitsValue_nonneg [OF assms(4)] hasNumericPrefix_of_parts [OF assms(1-4)]
    by (intro conjI)
qed

theorem count_with_trailing_text_witness:
  "parseCount [''log'', ''5x''] = Inr 5 \<and>
   parseCount [''log'', ''120x''] = Inr 120 \<and>
   parseCount [''log'', [CHR 0x09, CHR '' '', CHR ''+'', CHR ''5'', CHR ''x'']] = Inr 5 \<and>
   parseCount [''log'', '' 5x''] = Inr 5 \<and>
   parseCount [''log'', ''-0x''] = Inr 0 \<and>
   parseCount [''log'', ''2147483647 messages''] = Inr 2147483647 \<and>
   parseCount [''log'', ''-5x''] = Inl [CountNotPositive ''-5x''] \<and>
   parseCount [''log'', ''2147483648x''] =
     Inl [CountTooLarge ''2147483648x'', ExcludeParameterHint] \<and>
   hasNumericPrefix ''+5x'' \<and>
   parseCount [''log'', ''x5''] = Inl [InvalidCount ''x5''] \<and>
   parseCount [''log'', ''+ 5''] = Inl [InvalidCount ''+ 5'']"
proof -
  have sp: "\<forall>c\<in>set []. isspace c" "\<forall>c\<in>set '' ''. isspace c"
    "\<forall>c\<in>set [CHR 0x09, CHR '' '']. isspace c"
    by (simp_all add: isspace_def)
  have sg: "([]::string) = [] \<or> ([]::string) = ''+'' \<or> ([]::string) = ''-''"
    "''+'' = [] \<or> ''+'' = ''+'' \<or> ''+'' = ''-''"
    "''-'' = [] \<or> ''-'' = ''+'' \<or> ''-'' = ''-''"
    by simp_all
  have ne: "''5'' \<noteq> []" "''120'' \<noteq> []" "''0'' \<noteq> []" "''2147483647'' \<noteq> []"
    "''2147483648'' \<noteq> []"
    by simp_all
  have dg: "\<forall>c\<in>set ''5''. isdigit c" "\<forall>c\<in>set ''120''. isdigit c" "\<forall>c\<in>set ''0''. isdigit c"
    "\<forall>c\<in>set ''2147483647''. isdigit c" "\<forall>c\<in>set ''2147483648''. isdigit c"
    by (simp_all add: isdigit_def)
  have tl: "''x'' = [] \<or> \<not> isdigit (hd ''x'')"
    "'' messages'' = [] \<or> \<not> isdigit (hd '' messages'')"
    by (simp_all add: isdigit_def)
  have v: "digitsValue ''5'' = 5" "digitsValue ''120'' = 120" "digitsValue ''0'' = 0"
    "digitsValue ''2147483647'' = 2147483647" "digitsValue ''2147483648'' = 2147483648"
    by (simp_all add: digitsValue_def)
  note t = count_with_trailing_text
  note accepted = t [THEN conjunct1]
  note prefixed = t [THEN conjunct2, THEN conjunct2, THEN conjunct1]
  note invalid = t [THEN conjunct2, THEN conjunct2, THEN conjunct2, THEN conjunct2]
  have "parseCount [''log'', ''5x''] = Inr 5"
    using accepted [OF sp(1) sg(1) ne(1) dg(1) tl(1), of "''log''" "[]"]
    by (simp add: v INT_MIN_def INT_MAX_def)
  moreover have "parseCount [''log'', ''120x''] = Inr 120"
    using accepted [OF sp(1) sg(1) ne(2) dg(2) tl(1), of "''log''" "[]"]
    by (simp add: v INT_MIN_def INT_MAX_def)
  moreover have "parseCount [''log'', [CHR 0x09, CHR '' '', CHR ''+'', CHR ''5'', CHR ''x'']] = Inr 5"
    using accepted [OF sp(3) sg(2) ne(1) dg(1) tl(1), of "''log''" "[]"]
    by (simp add: v INT_MIN_def INT_MAX_def)
  moreover have "parseCount [''log'', '' 5x''] = Inr 5"
    using accepted [OF sp(2) sg(1) ne(1) dg(1) tl(1), of "''log''" "[]"]
    by (simp add: v INT_MIN_def INT_MAX_def)
  moreover have "parseCount [''log'', ''-0x''] = Inr 0"
    using accepted [OF sp(1) sg(3) ne(3) dg(3) tl(1), of "''log''" "[]"]
    by (simp add: v INT_MIN_def INT_MAX_def)
  moreover have "parseCount [''log'', ''2147483647 messages''] = Inr 2147483647"
    using accepted [OF sp(1) sg(1) ne(4) dg(4) tl(2), of "''log''" "[]"]
    by (simp add: v INT_MIN_def INT_MAX_def)
  moreover have "parseCount [''log'', ''-5x''] = Inl [CountNotPositive ''-5x'']"
    using accepted [OF sp(1) sg(3) ne(1) dg(1) tl(1), of "''log''" "[]"]
    by (simp add: v INT_MIN_def INT_MAX_def)
  moreover have "parseCount [''log'', ''2147483648x''] =
      Inl [CountTooLarge ''2147483648x'', ExcludeParameterHint]"
    using accepted [OF sp(1) sg(1) ne(5) dg(5) tl(1), of "''log''" "[]"]
    by (simp add: v INT_MIN_def INT_MAX_def)
  moreover have "hasNumericPrefix ''+5x''"
    using prefixed [OF sp(1) sg(2) ne(1) dg(1) tl(1)] by simp
  moreover have "parseCount [''log'', ''x5''] = Inl [InvalidCount ''x5'']"
    using invalid [OF sp(1) sg(1) ne(1) dg(1) tl(1), of "''log''" "''x5''" "[]"]
    by (simp add: hasNumericPrefix_def isspace_def isdigit_def)
  moreover have "parseCount [''log'', ''+ 5''] = Inl [InvalidCount ''+ 5'']"
    using invalid [OF sp(1) sg(1) ne(1) dg(1) tl(1), of "''log''" "''+ 5''" "[]"]
    by (simp add: hasNumericPrefix_def isspace_def isdigit_def)
  ultimately show ?thesis by (intro conjI)
qed

end
